theory Spec2Isabelle
  imports Main "HOL-Library.Sublist" "HOL-Library.AList"
begin

section \<open>Python string primitives used by the scraper\<close>

text \<open>
  Text is modelled as \<open>string\<close>, one \<open>char\<close> per code point, so the model covers
  text whose code points are below 256. On that range the regular expression class
  \<^verbatim>\<open>\d\<close> is exactly the ten ASCII digits, and the white space removed by
  \<^verbatim>\<open>str.strip()\<close> is the set given by \<open>is_space\<close>.
\<close>

definition is_digit :: "char \<Rightarrow> bool" where
  "is_digit c = (c \<in> set ''0123456789'')"

definition is_space :: "char \<Rightarrow> bool" where
  "is_space c = ((of_char c :: nat) \<in> set [9, 10, 11, 12, 13, 28, 29, 30, 31, 32, 133, 160])"

definition strip :: "string \<Rightarrow> string" where
  "strip s = rev (dropWhile is_space (rev (dropWhile is_space s)))"

text \<open>\<^verbatim>\<open>sub in s\<close> on strings: \<open>sub\<close> occurs as a contiguous piece of \<open>s\<close>.\<close>

fun str_contains :: "string \<Rightarrow> string \<Rightarrow> bool" where
  "str_contains sub [] = (sub = [])"
| "str_contains sub (c # cs) = (prefix sub (c # cs) \<or> str_contains sub cs)"

text \<open>
  \<^verbatim>\<open>s.replace(old, new)\<close>: every non-overlapping occurrence of \<open>old\<close>, found from
  the left, is replaced. With an empty \<open>old\<close> Python inserts \<open>new\<close> before every
  character and at the end.
\<close>

function replace :: "string \<Rightarrow> string \<Rightarrow> string \<Rightarrow> string" where
  "replace old new [] = (if old = [] then new else [])"
| "replace old new (c # cs) =
     (if old = [] then new @ c # replace old new cs
      else if prefix old (c # cs) then new @ replace old new (drop (length old) (c # cs))
      else c # replace old new cs)"
  by pat_completeness auto
termination
  by (relation "measure (\<lambda>(old, new, s). length s)") auto

section \<open>Numeric extraction (\<^verbatim>\<open>_extract_rating\<close>, \<^verbatim>\<open>_extract_reviews_count\<close>)\<close>

text \<open>
  \<^verbatim>\<open>re.search(r'(\d+)', s)\<close>: the match starts at the first digit of \<open>s\<close> and takes
  the whole run of digits there; no digit, no match.
\<close>

fun search_int :: "string \<Rightarrow> string option" where
  "search_int [] = None"
| "search_int (c # cs) =
     (if is_digit c then Some (takeWhile is_digit (c # cs)) else search_int cs)"

text \<open>
  \<^verbatim>\<open>\d+(?:\.\d+)?\<close> matched at a position holding a digit: the greedy run of digits,
  then a dot and a second run when the dot is followed by a digit.
\<close>

definition match_decimal :: "string \<Rightarrow> string" where
  "match_decimal s =
     (let ds = takeWhile is_digit s; r = dropWhile is_digit s in
      case r of
        [] \<Rightarrow> ds
      | d # r' \<Rightarrow>
          if d = CHR ''.'' \<and> takeWhile is_digit r' \<noteq> []
          then ds @ d # takeWhile is_digit r' else ds)"

text \<open>\<^verbatim>\<open>re.search(r'(\d+(?:\.\d+)?)', s)\<close>, group 1.\<close>

fun search_decimal :: "string \<Rightarrow> string option" where
  "search_decimal [] = None"
| "search_decimal (c # cs) =
     (if is_digit c then Some (match_decimal (c # cs)) else search_decimal cs)"

text \<open>
  The numeric step of \<^verbatim>\<open>_extract_rating\<close>, applied to the text that
  \<^verbatim>\<open>_get_text\<close> returned:
  \<^verbatim>\<open>
  if rating_text:
      match = re.search(r'(\d+(?:\.\d+)?)', rating_text)
      if match: return match.group(1)
  return ""
  \<close>
\<close>

definition rating_of_text :: "string \<Rightarrow> string" where
  "rating_of_text rating_text =
     (if rating_text \<noteq> [] then
        (case search_decimal rating_text of Some m \<Rightarrow> m | None \<Rightarrow> [])
      else [])"

text \<open>The numeric step of \<^verbatim>\<open>_extract_reviews_count\<close>, with \<^verbatim>\<open>(\d+)\<close>.\<close>

definition reviews_count_of_text :: "string \<Rightarrow> string" where
  "reviews_count_of_text count_text =
     (if count_text \<noteq> [] then
        (case search_int count_text of Some m \<Rightarrow> m | None \<Rightarrow> [])
      else [])"

section \<open>Further Python primitives\<close>

text \<open>\<^verbatim>\<open>xs[:n]\<close> for an integer \<open>n\<close>: a negative \<open>n\<close> counts from the end.\<close>

definition slice_to :: "int \<Rightarrow> 'a list \<Rightarrow> 'a list" where
  "slice_to n xs = (if 0 \<le> n then take (nat n) xs else take (length xs - nat (- n)) xs)"

text \<open>\<^verbatim>\<open>s.split(sep)\<close> for a one-character separator; the result is never empty.\<close>

fun split_char :: "char \<Rightarrow> string \<Rightarrow> string list" where
  "split_char sep [] = [[]]"
| "split_char sep (c # cs) =
     (if c = sep then [] # split_char sep cs
      else (case split_char sep cs of [] \<Rightarrow> [[c]] | p # ps \<Rightarrow> (c # p) # ps))"

text \<open>\<^verbatim>\<open>str.lower()\<close> and \<^verbatim>\<open>str.upper()\<close> on code points below 256.\<close>

definition lower_char :: "char \<Rightarrow> char" where
  "lower_char c =
     (let n = (of_char c :: nat) in
      if (65 \<le> n \<and> n \<le> 90) \<or> (192 \<le> n \<and> n \<le> 222 \<and> n \<noteq> 215) then char_of (n + 32) else c)"

definition lower :: "string \<Rightarrow> string" where
  "lower s = map lower_char s"

definition upper_char :: "char \<Rightarrow> char" where
  "upper_char c =
     (let n = (of_char c :: nat) in
      if (97 \<le> n \<and> n \<le> 122) \<or> (224 \<le> n \<and> n \<le> 254 \<and> n \<noteq> 247) then char_of (n - 32) else c)"

definition upper :: "string \<Rightarrow> string" where
  "upper s = map upper_char s"

text \<open>\<^verbatim>\<open>c.isalnum()\<close> on code points below 256.\<close>

definition is_alnum :: "char \<Rightarrow> bool" where
  "is_alnum c =
     (let n = (of_char c :: nat) in
      (48 \<le> n \<and> n \<le> 57) \<or> (65 \<le> n \<and> n \<le> 90) \<or> (97 \<le> n \<and> n \<le> 122) \<or>
      n \<in> set [170, 178, 179, 181, 185, 186, 188, 189, 190] \<or>
      (192 \<le> n \<and> n \<noteq> 215 \<and> n \<noteq> 247))"

text \<open>\<^verbatim>\<open>s.rstrip(":")\<close>.\<close>

definition rstrip_colon :: "string \<Rightarrow> string" where
  "rstrip_colon s = rev (dropWhile (\<lambda>c. c = CHR '':'') (rev s))"

text \<open>\<^verbatim>\<open>sep.join(xs)\<close>.\<close>

fun join :: "string \<Rightarrow> string list \<Rightarrow> string" where
  "join sep [] = []"
| "join sep [x] = x"
| "join sep (x # y # ys) = x @ sep @ join sep (y # ys)"

text \<open>\<^verbatim>\<open>os.path.join(a, b)\<close> on a POSIX system.\<close>

definition path_join :: "string \<Rightarrow> string \<Rightarrow> string" where
  "path_join a b =
     (if b \<noteq> [] \<and> hd b = CHR ''/'' then b
      else if a = [] \<or> last a = CHR ''/'' then a @ b
      else a @ ''/'' @ b)"

text \<open>\<^verbatim>\<open>str(n)\<close> for a natural number, and the format \<^verbatim>\<open>{n:03d}\<close>.\<close>

definition digit_char :: "nat \<Rightarrow> char" where
  "digit_char d = char_of (48 + d)"

function str_of_nat :: "nat \<Rightarrow> string" where
  "str_of_nat n = (if n < 10 then [digit_char n] else str_of_nat (n div 10) @ [digit_char (n mod 10)])"
  by pat_completeness auto
termination
  by (relation "measure (\<lambda>n. n)") auto

definition pad3 :: "nat \<Rightarrow> string" where
  "pad3 n =
     (let s = str_of_nat n in
      if length s = 1 then ''00'' @ s else if length s = 2 then ''0'' @ s else s)"

text \<open>
  \<^verbatim>\<open>re.sub(r'tab=gallery&?', '', url)\<close>: every occurrence of \<^verbatim>\<open>tab=gallery\<close>, with the
  ampersand after it when there is one, is removed.
\<close>

function remove_tab_gallery :: "string \<Rightarrow> string" where
  "remove_tab_gallery [] = []"
| "remove_tab_gallery (c # cs) =
     (if prefix ''tab=gallery&'' (c # cs) then remove_tab_gallery (drop 12 (c # cs))
      else if prefix ''tab=gallery'' (c # cs) then remove_tab_gallery (drop 11 (c # cs))
      else c # remove_tab_gallery cs)"
  by pat_completeness auto
termination
  by (relation "measure length") auto

section \<open>Image URL rewriting (\<^verbatim>\<open>_extract_photos\<close>, the size markers)\<close>

text \<open>
  \<^verbatim>\<open>
  if "S_height" in src or "XXS" in src or "XS_height" in src:
      src = src.replace("S_height", "XL").replace("XXS_height", "XL").replace("XS_height", "XL")
  src = src.replace("M_height", "XL").replace("L_height", "XL")
  src = src.replace("200x200", "orig").replace("400x400", "orig").replace("600x600", "orig")
  src = src.replace("priority-headline-background", "XL")
  \<close>
\<close>

definition upgrade_src :: "string \<Rightarrow> string" where
  "upgrade_src src0 =
     (let src1 =
            (if str_contains ''S_height'' src0 \<or> str_contains ''XXS'' src0 \<or>
                str_contains ''XS_height'' src0
             then replace ''XS_height'' ''XL''
                    (replace ''XXS_height'' ''XL'' (replace ''S_height'' ''XL'' src0))
             else src0);
          src2 = replace ''L_height'' ''XL'' (replace ''M_height'' ''XL'' src1);
          src3 = replace ''600x600'' ''orig''
                   (replace ''400x400'' ''orig'' (replace ''200x200'' ''orig'' src2));
          src4 = replace ''priority-headline-background'' ''XL'' src3
      in src4)"

section \<open>The browser, the site and the scraper's state\<close>

text \<open>
  Exceptions are values. Every exception modelled is a subclass of Python's
  \<^verbatim>\<open>Exception\<close>, so \<^verbatim>\<open>except Exception\<close> and a bare \<^verbatim>\<open>except\<close> catch all of them.
\<close>

datatype exn =
    NoSuchElementException | StaleElementReferenceException | TimeoutException
  | WebDriverException | AttributeError | TypeError | NameError | ValueError | OSError
  | RequestException | ImageError | IllegalCharacterError

text \<open>
  A web element: reading \<^verbatim>\<open>.text\<close>, \<^verbatim>\<open>get_attribute(name)\<close> (which may return
  \<^verbatim>\<open>None\<close>) and \<^verbatim>\<open>find_elements(By.CSS_SELECTOR, selector)\<close> below the element; each
  call may raise.
\<close>

datatype element =
  Element (el_text: "exn + string")
          (el_attr: "string \<Rightarrow> exn + string option")
          (el_find: "string \<Rightarrow> exn + element list")

text \<open>
  The page a driver shows: its URL, the elements a selector (CSS or XPath text) finds,
  and the cookies.
\<close>

record browser =
  current_url :: string
  dom :: "string \<Rightarrow> exn + element list"
  cookies :: "exn + (string \<times> string) list"

text \<open>The scraper's configuration (\<^verbatim>\<open>YandexMapsScraper.__init__\<close>).\<close>

record config =
  headless :: bool
  max_results :: int
  scrape_photos :: bool
  scrape_reviews :: bool
  photo_format :: string
  max_photos :: int
  browser_type :: string

text \<open>The dictionaries the scraper builds: a review and a place.\<close>

record review =
  r_author :: string
  r_text :: string
  r_rating :: string
  r_date :: string

datatype feature_value = FTrue | FValue string

record place =
  p_id :: nat
  p_name :: string
  p_category :: string
  p_description :: string
  p_features :: "(string \<times> feature_value) list"
  p_address :: string
  p_website :: string
  p_phone :: string
  p_rating :: string
  p_reviews_count :: string
  p_working_hours :: "string list"
  p_folder_path :: string
  p_link :: string
  p_social_media :: "string list"
  p_photos :: "string list"
  p_reviews :: "review list"
  p_search_query :: "string option"

datatype keys = KeysText string | KeysReturn

text \<open>
  Everything outside the repository is a parameter: what the browser does on a
  navigation, a script, a wait or a key press, what an HTTP request returns, what the
  image library and the serialisers produce, and which file-system calls fail. A call
  either raises or gives its result.
\<close>

text \<open>
  What a library call that writes into an opened file leaves in it: everything, or, when
  it raises on the way, the part written before the exception.
\<close>

datatype serialised = Written string | Interrupted exn string

record site =
  launch :: "string \<Rightarrow> bool \<Rightarrow> exn + browser"
  quit_error :: "browser \<Rightarrow> exn option"
  navigate :: "string \<Rightarrow> browser \<Rightarrow> exn + browser"
  run_script :: "string \<Rightarrow> element option \<Rightarrow> browser \<Rightarrow> exn + browser"
  wait_visible :: "string \<Rightarrow> browser \<Rightarrow> exn + browser"
  wait_present :: "string \<Rightarrow> browser \<Rightarrow> exn + element \<times> browser"
  clear_input :: "element \<Rightarrow> browser \<Rightarrow> exn + browser"
  type_keys :: "element \<Rightarrow> keys \<Rightarrow> browser \<Rightarrow> exn + browser"
  http_get :: "(string \<Rightarrow> string option) \<Rightarrow> string \<Rightarrow> exn + nat \<times> string"
  image_convert :: "string \<Rightarrow> string \<Rightarrow> exn + string"
  write_error :: "string \<Rightarrow> exn option"
  makedirs_error :: "string \<Rightarrow> exn option"
  json_encode :: "place list \<Rightarrow> serialised"
  csv_encode :: "place list \<Rightarrow> exn + serialised"
  sqlite_encode :: "place list \<Rightarrow> exn + (string option \<Rightarrow> serialised)"
  excel_encode :: "place list \<Rightarrow> exn + serialised"
  on_progress :: "(nat \<Rightarrow> int \<Rightarrow> string \<Rightarrow> exn option) option"
  timestamp :: string

datatype log_entry = LogInfo string | LogWarning string | LogError string | LogCritical string

text \<open>
  The mutable state: the driver (\<^verbatim>\<open>self.driver\<close>, \<^verbatim>\<open>None\<close> until a browser is
  launched), whether \<^verbatim>\<open>quit()\<close> has been called on it, the cookies of the HTTP session,
  the data manager's session directory, the files written and the log. Of the logger
  calls only those of the storage layer and of \<^verbatim>\<open>run\<close> are recorded; the others change
  neither control flow nor data.
\<close>

record world =
  driver :: "browser option"
  quit_called :: bool
  session_cookies :: "string \<Rightarrow> string option"
  current_session_dir :: string
  files :: "string \<Rightarrow> string option"
  logged :: "log_entry list"

text \<open>
  An action takes the state and gives back an exception or a result, with the state at
  that point.
\<close>

type_synonym 'a act = "world \<Rightarrow> (exn + 'a) \<times> world"

definition ret :: "'a \<Rightarrow> 'a act" where
  "ret x = (\<lambda>w. (Inr x, w))"

definition raise :: "exn \<Rightarrow> 'a act" where
  "raise e = (\<lambda>w. (Inl e, w))"

definition lift :: "exn + 'a \<Rightarrow> 'a act" where
  "lift r = (\<lambda>w. (r, w))"

definition bnd :: "'a act \<Rightarrow> ('a \<Rightarrow> 'b act) \<Rightarrow> 'b act" where
  "bnd m f = (\<lambda>w. case m w of (Inl e, w') \<Rightarrow> (Inl e, w') | (Inr x, w') \<Rightarrow> f x w')"

text \<open>\<^verbatim>\<open>try: m except Exception as e: h(e)\<close>.\<close>

definition try_except :: "'a act \<Rightarrow> (exn \<Rightarrow> 'a act) \<Rightarrow> 'a act" where
  "try_except m h = (\<lambda>w. case m w of (Inl e, w') \<Rightarrow> h e w' | (Inr x, w') \<Rightarrow> (Inr x, w'))"

text \<open>\<^verbatim>\<open>try: m except E as e: h(e)\<close> for the one exception class \<open>E\<close>.\<close>

definition try_except_only :: "exn \<Rightarrow> 'a act \<Rightarrow> (exn \<Rightarrow> 'a act) \<Rightarrow> 'a act" where
  "try_except_only E m h =
     (\<lambda>w. case m w of
        (Inl e, w') \<Rightarrow> if e = E then h e w' else (Inl e, w')
      | (Inr x, w') \<Rightarrow> (Inr x, w'))"

definition log_msg :: "log_entry \<Rightarrow> unit act" where
  "log_msg l = (\<lambda>w. (Inr (), w\<lparr>logged := logged w @ [l]\<rparr>))"

subsection \<open>Driver calls\<close>

text \<open>A call on \<^verbatim>\<open>self.driver\<close> while it is \<^verbatim>\<open>None\<close> raises \<^verbatim>\<open>AttributeError\<close>.\<close>

definition with_driver :: "(browser \<Rightarrow> exn + 'a) \<Rightarrow> 'a act" where
  "with_driver f = (\<lambda>w. case driver w of None \<Rightarrow> (Inl AttributeError, w) | Some b \<Rightarrow> (f b, w))"

definition change_driver :: "(browser \<Rightarrow> exn + browser) \<Rightarrow> unit act" where
  "change_driver f =
     (\<lambda>w. case driver w of
        None \<Rightarrow> (Inl AttributeError, w)
      | Some b \<Rightarrow> (case f b of Inl e \<Rightarrow> (Inl e, w) | Inr b' \<Rightarrow> (Inr (), w\<lparr>driver := Some b'\<rparr>)))"

definition find_elements :: "string \<Rightarrow> element list act" where
  "find_elements selector = with_driver (\<lambda>b. dom b selector)"

text \<open>\<^verbatim>\<open>find_element\<close>: the first element found, or \<^verbatim>\<open>NoSuchElementException\<close>.\<close>

definition first_match :: "exn + element list \<Rightarrow> exn + element" where
  "first_match r =
     (case r of Inl e \<Rightarrow> Inl e | Inr [] \<Rightarrow> Inl NoSuchElementException | Inr (x # _) \<Rightarrow> Inr x)"

definition find_element :: "string \<Rightarrow> element act" where
  "find_element selector = with_driver (\<lambda>b. first_match (dom b selector))"

definition get_current_url :: "string act" where
  "get_current_url = with_driver (\<lambda>b. Inr (current_url b))"

definition driver_get :: "site \<Rightarrow> string \<Rightarrow> unit act" where
  "driver_get st url = change_driver (navigate st url)"

definition execute_script :: "site \<Rightarrow> string \<Rightarrow> element option \<Rightarrow> unit act" where
  "execute_script st js arg = change_driver (run_script st js arg)"

definition wait_until_visible :: "site \<Rightarrow> string \<Rightarrow> unit act" where
  "wait_until_visible st selector = change_driver (wait_visible st selector)"

definition wait_until_present :: "site \<Rightarrow> string \<Rightarrow> element act" where
  "wait_until_present st selector =
     (\<lambda>w. case driver w of
        None \<Rightarrow> (Inl AttributeError, w)
      | Some b \<Rightarrow>
          (case wait_present st selector b of
             Inl e \<Rightarrow> (Inl e, w)
           | Inr (el, b') \<Rightarrow> (Inr el, w\<lparr>driver := Some b'\<rparr>)))"

definition write_file :: "site \<Rightarrow> string \<Rightarrow> string \<Rightarrow> unit act" where
  "write_file st path content =
     (\<lambda>w. case write_error st path of
        Some e \<Rightarrow> (Inl e, w)
      | None \<Rightarrow> (Inr (), w\<lparr>files := (files w)(path \<mapsto> content)\<rparr>))"

text \<open>
  A library call that opens the file at a path and writes into it
  (\<^verbatim>\<open>open(filepath, 'w')\<close> with \<^verbatim>\<open>json.dump\<close>, \<^verbatim>\<open>df.to_csv\<close>, \<^verbatim>\<open>df.to_excel\<close>,
  \<^verbatim>\<open>sqlite3.connect\<close> with \<^verbatim>\<open>df.to_sql\<close>). When the file cannot be opened nothing is
  changed. Otherwise the file exists from then on: it holds what the writer makes of
  the former content (nothing of it is kept where the file is opened for writing), and
  when the writer raises on the way, what it had written stays.
\<close>

definition open_and_write :: "site \<Rightarrow> string \<Rightarrow> (string option \<Rightarrow> serialised) \<Rightarrow> unit act" where
  "open_and_write st path writer =
     (\<lambda>w. case write_error st path of
        Some e \<Rightarrow> (Inl e, w)
      | None \<Rightarrow>
          (case writer (files w path) of
             Written content \<Rightarrow> (Inr (), w\<lparr>files := (files w)(path \<mapsto> content)\<rparr>)
           | Interrupted e part \<Rightarrow> (Inl e, w\<lparr>files := (files w)(path \<mapsto> part)\<rparr>)))"

definition makedirs :: "site \<Rightarrow> string \<Rightarrow> unit act" where
  "makedirs st path = (\<lambda>w. case makedirs_error st path of Some e \<Rightarrow> (Inl e, w) | None \<Rightarrow> (Inr (), w))"

section \<open>Extraction helpers\<close>

text \<open>
  \<^verbatim>\<open>_get_text\<close>. The body of the \<^verbatim>\<open>try\<close> for one selector either returns a text
  (\<open>Some\<close>), falls through to the next selector (\<open>None\<close>), or raises; only
  \<^verbatim>\<open>NoSuchElementException\<close> is caught.
\<close>

definition get_text_try :: "string \<Rightarrow> string option act" where
  "get_text_try selector =
     bnd (find_element selector) (\<lambda>el.
     bnd (lift (el_text el)) (\<lambda>t.
       if strip t \<noteq> [] then ret (Some (strip t))
       else bnd (lift (el_attr el ''textContent'')) (\<lambda>tc.
         case tc of
           None \<Rightarrow> raise AttributeError
         | Some c \<Rightarrow> if strip c \<noteq> [] then ret (Some (strip c)) else ret None)))"

primrec get_text :: "string list \<Rightarrow> string act" where
  "get_text [] = ret []"
| "get_text (selector # rest) =
     (\<lambda>w. case get_text_try selector w of
        (Inl e, w') \<Rightarrow> if e = NoSuchElementException then get_text rest w' else (Inl e, w')
      | (Inr (Some t), w') \<Rightarrow> (Inr t, w')
      | (Inr None, w') \<Rightarrow> get_text rest w')"

text \<open>\<^verbatim>\<open>_get_attribute\<close>.\<close>

definition get_attribute_try :: "string \<Rightarrow> string \<Rightarrow> string option act" where
  "get_attribute_try selector attribute =
     bnd (find_element selector) (\<lambda>el.
     bnd (lift (el_attr el attribute)) (\<lambda>val.
       case val of
         None \<Rightarrow> ret None
       | Some v \<Rightarrow> if v \<noteq> [] then ret (Some (strip v)) else ret None))"

primrec get_attribute :: "string list \<Rightarrow> string \<Rightarrow> string act" where
  "get_attribute [] attribute = ret []"
| "get_attribute (selector # rest) attribute =
     (\<lambda>w. case get_attribute_try selector attribute w of
        (Inl e, w') \<Rightarrow>
          if e = NoSuchElementException then get_attribute rest attribute w' else (Inl e, w')
      | (Inr (Some t), w') \<Rightarrow> (Inr t, w')
      | (Inr None, w') \<Rightarrow> get_attribute rest attribute w')"

text \<open>
  \<^verbatim>\<open>_get_all_attributes\<close>: the loop appends until an element raises; the
  \<^verbatim>\<open>except Exception: pass\<close> around it keeps what was appended.
\<close>

fun collect_attributes :: "string \<Rightarrow> element list \<Rightarrow> string list" where
  "collect_attributes attribute [] = []"
| "collect_attributes attribute (el # els) =
     (case el_attr el attribute of
        Inl e \<Rightarrow> []
      | Inr None \<Rightarrow> collect_attributes attribute els
      | Inr (Some v) \<Rightarrow>
          if v \<noteq> [] then strip v # collect_attributes attribute els
          else collect_attributes attribute els)"

definition get_all_attributes :: "string \<Rightarrow> string \<Rightarrow> string list act" where
  "get_all_attributes selector attribute =
     try_except
       (bnd (find_elements selector) (\<lambda>elements. ret (collect_attributes attribute elements)))
       (\<lambda>e. ret [])"

text \<open>\<^verbatim>\<open>_get_text_from_element\<close>: a bare \<^verbatim>\<open>except\<close> turns every failure into "".\<close>

definition get_text_from_element :: "element \<Rightarrow> string \<Rightarrow> string" where
  "get_text_from_element parent selector =
     (case first_match (el_find parent selector) of
        Inl e \<Rightarrow> []
      | Inr el \<Rightarrow> (case el_text el of Inl e \<Rightarrow> [] | Inr t \<Rightarrow> strip t))"

text \<open>\<^verbatim>\<open>_extract_rating\<close> and \<^verbatim>\<open>_extract_reviews_count\<close>.\<close>

definition extract_rating :: "string act" where
  "extract_rating =
     bnd (get_text [''.business-rating-view__rating'', ''.business-rating-badge-view__rating''])
       (\<lambda>rating_text. ret (rating_of_text rating_text))"

definition extract_reviews_count :: "string act" where
  "extract_reviews_count =
     bnd (get_text
            [''.business-header-rating-view__text'', ''.business-rating-view__count'',
             ''.business-rating-badge-view__count'', ''.business-header-rating-view__count'',
             ''span.business-rating-amount-view'', ''.orgpage-header-view__rating-label''])
       (\<lambda>count_text. ret (reviews_count_of_text count_text))"

text \<open>\<^verbatim>\<open>_extract_social_links\<close>.\<close>

fun collect_hrefs :: "element list \<Rightarrow> string list" where
  "collect_hrefs [] = []"
| "collect_hrefs (el # els) =
     (case el_attr el ''href'' of
        Inl e \<Rightarrow> []
      | Inr None \<Rightarrow> collect_hrefs els
      | Inr (Some h) \<Rightarrow> if h \<noteq> [] then h # collect_hrefs els else collect_hrefs els)"

definition extract_social_links :: "string list act" where
  "extract_social_links =
     try_except
       (bnd (find_elements ''.business-contacts-view__social-button a'')
          (\<lambda>elements. ret (collect_hrefs elements)))
       (\<lambda>e. ret [])"

section \<open>Photo pipeline (\<^verbatim>\<open>_extract_photos\<close>)\<close>

text \<open>\<^verbatim>\<open>os.path.join(folder, "photos", f"photo_{n}.{ext}")\<close>.\<close>

definition photo_path :: "string \<Rightarrow> nat \<Rightarrow> string \<Rightarrow> string" where
  "photo_path folder n ext =
     path_join (path_join folder ''photos'') (''photo_'' @ str_of_nat n @ ''.'' @ ext)"

definition session_get :: "site \<Rightarrow> string \<Rightarrow> (nat \<times> string) act" where
  "session_get st url = (\<lambda>w. (http_get st (session_cookies w) url, w))"

text \<open>
  The cookies of the driver are copied into the HTTP session:
  \<^verbatim>\<open>for cookie in self.driver.get_cookies(): self.session.cookies.set(...)\<close>.
\<close>

definition transfer_cookies :: "unit act" where
  "transfer_cookies =
     bnd (with_driver cookies) (\<lambda>cs w.
       (Inr (), w\<lparr>session_cookies := fold (\<lambda>(n, v) jar. jar(n \<mapsto> v)) cs (session_cookies w)\<rparr>))"

text \<open>
  The source of an image: \<^verbatim>\<open>src\<close>, replaced by the last entry of \<^verbatim>\<open>srcset\<close> when
  there is one:
  \<^verbatim>\<open>src = srcset.split(",")[-1].strip().split(" ")[0]\<close>.
\<close>

definition resolve_src :: "string option \<Rightarrow> string option \<Rightarrow> string option" where
  "resolve_src src srcset =
     (case srcset of
        None \<Rightarrow> src
      | Some ss \<Rightarrow>
          if ss \<noteq> [] then Some (hd (split_char CHR '' '' (strip (last (split_char CHR '','' ss)))))
          else src)"

text \<open>
  \<^verbatim>\<open>
  url_path = src.split("?")[0].split("/")[-1] if "/" in src else src
  if any(x in url_path.lower() for x in ["icon", "logo", "svg"]): continue
  \<close>
\<close>

definition skip_non_image :: "string \<Rightarrow> bool" where
  "skip_non_image src =
     (let url_path =
            (if str_contains ''/'' src then last (split_char CHR ''/'' (hd (split_char CHR ''?'' src)))
             else src)
      in list_ex (\<lambda>x. str_contains x (lower url_path)) [''icon'', ''logo'', ''svg''])"

text \<open>
  \<^verbatim>\<open>self.photo_format in ["webp", "png"] and self.photo_format != "jpg"\<close>.
\<close>

definition needs_conversion :: "config \<Rightarrow> bool" where
  "needs_conversion cfg =
     (photo_format cfg \<in> set [''webp'', ''png''] \<and> photo_format cfg \<noteq> ''jpg'')"

text \<open>
  The inner \<^verbatim>\<open>try\<close> of the loop, for the image at index \<open>i\<close> of the enumeration: the
  request, the test on status and size, and the save. The result is the path appended
  to \<^verbatim>\<open>downloaded_paths\<close>, if any. A write that fails leaves no file.
\<close>

definition download_photo :: "site \<Rightarrow> config \<Rightarrow> string \<Rightarrow> nat \<Rightarrow> string \<Rightarrow> string option act" where
  "download_photo st cfg folder i src =
     bnd (session_get st src) (\<lambda>(status_code, content).
       if status_code = 200 \<and> 1000 < length content then
         if needs_conversion cfg then
           try_except
             (bnd (lift (image_convert st (upper (photo_format cfg)) content)) (\<lambda>encoded.
              bnd (write_file st (photo_path folder (i + 1) (photo_format cfg)) encoded) (\<lambda>_.
              ret (Some (photo_path folder (i + 1) (photo_format cfg))))))
             (\<lambda>conversion_error.
              bnd (write_file st (photo_path folder (i + 1) ''jpg'') content) (\<lambda>_.
              ret (Some (photo_path folder (i + 1) ''jpg''))))
         else
           bnd (write_file st (photo_path folder (i + 1) ''jpg'') content) (\<lambda>_.
           ret (Some (photo_path folder (i + 1) ''jpg'')))
       else ret None)"

text \<open>
  One iteration of \<^verbatim>\<open>for i, img in enumerate(imgs[:self.max_photos])\<close>. Reading the
  attributes is outside the inner \<^verbatim>\<open>try\<close>: an exception there leaves the loop.
\<close>

definition photo_step :: "site \<Rightarrow> config \<Rightarrow> string \<Rightarrow> nat \<Rightarrow> element \<Rightarrow> string option act" where
  "photo_step st cfg folder i img =
     bnd (lift (el_attr img ''src'')) (\<lambda>src0.
     bnd (lift (el_attr img ''srcset'')) (\<lambda>srcset.
       case resolve_src src0 srcset of
         None \<Rightarrow> ret None
       | Some src \<Rightarrow>
           if src = [] then ret None
           else if skip_non_image src then ret None
           else try_except (download_photo st cfg folder i (upgrade_src src)) (\<lambda>e. ret None)))"

text \<open>
  The loop. An exception that leaves an iteration is caught by the outer
  \<^verbatim>\<open>except Exception\<close>, and the paths appended so far are returned.
\<close>

primrec photos_loop :: "site \<Rightarrow> config \<Rightarrow> string \<Rightarrow> element list \<Rightarrow> nat \<Rightarrow> string list act" where
  "photos_loop st cfg folder [] i = ret []"
| "photos_loop st cfg folder (img # imgs) i =
     (\<lambda>w. case photo_step st cfg folder i img w of
        (Inl e, w') \<Rightarrow> (Inr [], w')
      | (Inr p, w') \<Rightarrow>
          bnd (photos_loop st cfg folder imgs (Suc i))
            (\<lambda>ps. ret ((case p of None \<Rightarrow> [] | Some path \<Rightarrow> [path]) @ ps)) w')"

definition gallery_images_selector :: string where
  "gallery_images_selector =
     ''img.media-wrapper__media, .media-wrapper__media[src], .media-gallery img, '' @
     ''.business-photos-view__photo-image img, .orgpage-photos-view__photo img''"

definition extract_photos :: "site \<Rightarrow> config \<Rightarrow> string \<Rightarrow> string list act" where
  "extract_photos st cfg folder =
     try_except
       (bnd transfer_cookies (\<lambda>_.
        bnd (find_elements gallery_images_selector) (\<lambda>imgs.
        photos_loop st cfg folder (slice_to (max_photos cfg) imgs) 0)))
       (\<lambda>e. ret [])"

section \<open>Review pipeline (\<^verbatim>\<open>_extract_reviews\<close>)\<close>

text \<open>
  The tab controls are found by an XPath over the class names and the labels of the
  tabs; the Cyrillic label is outside the modelled alphabet, and the selector is only a
  key of \<open>dom\<close>, so it is written here in Latin letters. A tab's text, being text of
  the model, never contains the Cyrillic label, which leaves the English one.
\<close>

definition reviews_tabs_xpath :: string where
  "reviews_tabs_xpath =
     ''//div[contains(@class, 'tabs-view__tab')] | //div[contains(text(), 'Otzyvy')] | '' @
     ''//div[contains(text(), 'Reviews')] | //div[contains(@class, '_name_reviews')]''"

primrec click_reviews_tab :: "site \<Rightarrow> element list \<Rightarrow> unit act" where
  "click_reviews_tab st [] = ret ()"
| "click_reviews_tab st (tab # tabs) =
     bnd (lift (el_text tab)) (\<lambda>t.
       if str_contains ''reviews'' (lower t) then
         bnd (lift (el_attr tab ''class'')) (\<lambda>cls.
           case cls of
             None \<Rightarrow> raise TypeError
           | Some c \<Rightarrow>
               if \<not> str_contains ''_selected'' c
               then execute_script st ''arguments[0].click();'' (Some tab)
               else ret ())
       else click_reviews_tab st tabs)"

text \<open>
  The rating of one review: the rating text, else the number in the accessibility label
  of the stars. Each lookup sits in its own \<^verbatim>\<open>try\<close> with a bare \<^verbatim>\<open>except: pass\<close>.
\<close>

definition review_rating :: "element \<Rightarrow> string" where
  "review_rating item =
     (let rating_text =
            (case first_match (el_find item ''.business-rating-badge-view__rating-text'') of
               Inl e \<Rightarrow> []
             | Inr rating_el \<Rightarrow> (case el_text rating_el of Inl e \<Rightarrow> [] | Inr t \<Rightarrow> strip t))
      in if rating_text \<noteq> [] then rating_text
         else
           (case first_match (el_find item ''.business-rating-badge-view__stars'') of
              Inl e \<Rightarrow> []
            | Inr stars_el \<Rightarrow>
                (case el_attr stars_el ''aria-label'' of
                   Inl e \<Rightarrow> []
                 | Inr None \<Rightarrow> []
                 | Inr (Some aria_label) \<Rightarrow>
                     if aria_label \<noteq> [] then
                       (case search_decimal aria_label of Some m \<Rightarrow> m | None \<Rightarrow> [])
                     else [])))"

text \<open>
  One review item. It is kept
  \<^verbatim>\<open>if (r["text"] or r["author"]) and r["rating"]\<close>.
\<close>

definition parse_review :: "element \<Rightarrow> review option" where
  "parse_review item =
     (let rating_text = review_rating item;
          author0 = get_text_from_element item
                      ''.business-review-view__author-name span[itemprop='name']'';
          author_text = (if author0 = [] then
                           get_text_from_element item ''.business-review-view__author-name''
                         else author0);
          body0 = get_text_from_element item ''.business-review-view__body .spoiler-view__text'';
          review_body = (if body0 = [] then
                           get_text_from_element item ''.business-review-view__body''
                         else body0);
          r = \<lparr>r_author = author_text, r_text = review_body, r_rating = rating_text,
               r_date = get_text_from_element item ''.business-review-view__date''\<rparr>
      in if (r_text r \<noteq> [] \<or> r_author r \<noteq> []) \<and> r_rating r \<noteq> [] then Some r else None)"

fun parse_reviews :: "element list \<Rightarrow> review list" where
  "parse_reviews [] = []"
| "parse_reviews (item # items) =
     (case parse_review item of
        None \<Rightarrow> parse_reviews items
      | Some r \<Rightarrow> r # parse_reviews items)"

definition extract_reviews :: "site \<Rightarrow> review list act" where
  "extract_reviews st =
     try_except
       (bnd (find_elements reviews_tabs_xpath) (\<lambda>tabs.
        bnd (click_reviews_tab st tabs) (\<lambda>_.
        bnd (find_elements ''.business-review-view'') (\<lambda>found.
        bnd (if found = [] then
               bnd (execute_script st ''window.scrollBy(0, 500);'' None) (\<lambda>_.
               find_elements ''.business-review-view'')
             else ret found) (\<lambda>review_items.
        ret (parse_reviews (take 5 review_items)))))))
       (\<lambda>e. ret [])"

section \<open>Storage (\<^verbatim>\<open>DataManager\<close>) and the decorators\<close>

text \<open>
  \<^verbatim>\<open>log_execution\<close>: an exception of the wrapped function is logged as an error and
  raised again. Its debug messages are below the configured level. Messages are recorded
  by their fixed text.
\<close>

definition log_execution :: "string \<Rightarrow> 'a act \<Rightarrow> 'a act" where
  "log_execution func_name m =
     try_except m (\<lambda>e. bnd (log_msg (LogError (''Error in '' @ func_name))) (\<lambda>_. raise e))"

text \<open>\<^verbatim>\<open>handle_errors(default_return)\<close>: an exception is logged and the default returned.\<close>

definition handle_errors :: "'a \<Rightarrow> 'a act \<Rightarrow> 'a act" where
  "handle_errors default_return m = try_except m (\<lambda>e. ret default_return)"

definition safe_chars :: "string \<Rightarrow> string" where
  "safe_chars s = filter (\<lambda>c. is_alnum c \<or> c \<in> set '' -_'') s"

definition base_dir :: string where
  "base_dir = ''output_data''"

definition setup_session_directory :: "site \<Rightarrow> string \<Rightarrow> string act" where
  "setup_session_directory st query =
     log_execution ''setup_session_directory''
       (\<lambda>w. let folder_name = timestamp st @ ''_'' @ strip (safe_chars query);
                 w1 = w\<lparr>current_session_dir := path_join base_dir folder_name\<rparr>
             in bnd (makedirs st (current_session_dir w1))
                  (\<lambda>_. ret (current_session_dir w1)) w1)"

definition create_place_folder :: "site \<Rightarrow> string \<Rightarrow> nat \<Rightarrow> string act" where
  "create_place_folder st place_name index =
     log_execution ''create_place_folder''
       (\<lambda>w. if current_session_dir w = [] then raise ValueError w
             else
               let safe_name = take 50 (strip (safe_chars place_name));
                   folder_name = pad3 index @ ''_'' @ safe_name;
                   place_path = path_join (current_session_dir w) folder_name
               in bnd (makedirs st place_path) (\<lambda>_.
                  bnd (makedirs st (path_join place_path ''photos'')) (\<lambda>_.
                  ret place_path)) w)"

text \<open>
  The serialisers (\<^verbatim>\<open>json\<close>, \<^verbatim>\<open>pandas\<close>, \<^verbatim>\<open>sqlite3\<close>) are library code: what they
  write for a list of records is given by the site. \<^verbatim>\<open>json.dump\<close> writes an empty list
  as \<^verbatim>\<open>[]\<close>.
\<close>

definition json_dump :: "site \<Rightarrow> place list \<Rightarrow> serialised" where
  "json_dump st data = (if data = [] then Written ''[]'' else json_encode st data)"

text \<open>
  \<^verbatim>\<open>save_json\<close>: the file is opened for writing, then \<^verbatim>\<open>json.dump\<close> writes into it.
\<close>

definition save_json :: "site \<Rightarrow> place list \<Rightarrow> string act" where
  "save_json st data =
     log_execution ''save_json''
       (\<lambda>w. if current_session_dir w = [] then ret [] w
             else
               let filepath = path_join (current_session_dir w) ''places_data.json''
               in try_except
                    (bnd (open_and_write st filepath (\<lambda>former. json_dump st data)) (\<lambda>_.
                     bnd (log_msg (LogInfo ''JSON saved'')) (\<lambda>_.
                     ret filepath)))
                    (\<lambda>e. bnd (log_msg (LogError ''Failed to save JSON'')) (\<lambda>_. ret [])) w)"

text \<open>
  The tabular exports: the records are flattened into a data frame, which may raise
  before any file is touched (\<open>Inl\<close>); then the library opens the file and writes the
  frame into it. A workbook and a CSV file are written anew; the table is put into the
  database that the file holds, which is created when there is none.
\<close>

definition export_to_csv :: "site \<Rightarrow> place list \<Rightarrow> string act" where
  "export_to_csv st data =
     log_execution ''export_to_csv''
       (\<lambda>w. if current_session_dir w = [] \<or> data = [] then ret [] w
             else
               let filepath = path_join (current_session_dir w) ''places_data.csv''
               in try_except
                    (bnd (lift (csv_encode st data)) (\<lambda>df.
                     bnd (open_and_write st filepath (\<lambda>former. df)) (\<lambda>_.
                     bnd (log_msg (LogInfo ''CSV exported'')) (\<lambda>_.
                     ret filepath))))
                    (\<lambda>e. bnd (log_msg (LogError ''Failed to export CSV'')) (\<lambda>_. ret [])) w)"

definition export_to_excel :: "site \<Rightarrow> place list \<Rightarrow> string act" where
  "export_to_excel st data =
     log_execution ''export_to_excel''
       (\<lambda>w. if current_session_dir w = [] \<or> data = [] then ret [] w
             else
               let filepath = path_join (current_session_dir w) ''places_data.xlsx''
               in try_except
                    (bnd (lift (excel_encode st data)) (\<lambda>df.
                     bnd (open_and_write st filepath (\<lambda>former. df)) (\<lambda>_.
                     bnd (log_msg (LogInfo ''Excel exported'')) (\<lambda>_.
                     ret filepath))))
                    (\<lambda>e. bnd (log_msg (LogError ''Failed to export Excel'')) (\<lambda>_. ret [])) w)"

definition save_to_sqlite :: "site \<Rightarrow> place list \<Rightarrow> string act" where
  "save_to_sqlite st data =
     log_execution ''save_to_sqlite''
       (\<lambda>w. if current_session_dir w = [] \<or> data = [] then ret [] w
             else
               let filepath = path_join (current_session_dir w) ''places_data.db''
               in try_except
                    (bnd (lift (sqlite_encode st data)) (\<lambda>df.
                     bnd (open_and_write st filepath df) (\<lambda>_.
                     bnd (log_msg (LogInfo ''SQLite saved'')) (\<lambda>_.
                     ret filepath))))
                    (\<lambda>e. bnd (log_msg (LogError ''Failed to save SQLite'')) (\<lambda>_. ret [])) w)"

text \<open>
  The four export calls at the end of \<^verbatim>\<open>run\<close>, in the order of the source; their
  return values are not used.
\<close>

definition save_results :: "site \<Rightarrow> place list \<Rightarrow> unit act" where
  "save_results st extracted_data =
     bnd (save_json st extracted_data) (\<lambda>_.
     bnd (export_to_csv st extracted_data) (\<lambda>_.
     bnd (save_to_sqlite st extracted_data) (\<lambda>_.
     bnd (export_to_excel st extracted_data) (\<lambda>_.
     ret ()))))"

section \<open>One listing (\<^verbatim>\<open>_extract_details\<close>)\<close>

definition overview_tabs_xpath :: string where
  "overview_tabs_xpath =
     ''//div[contains(@class, 'tabs-view__tab')] | //div[contains(text(), 'Obzor')] | '' @
     ''//div[contains(text(), 'Overview')] | //div[contains(@class, '_name_overview')]''"

text \<open>\<^verbatim>\<open>_switch_to_overview\<close>: the first tab with a matching label is clicked unless selected.\<close>

primrec switch_overview_loop :: "site \<Rightarrow> element list \<Rightarrow> unit act" where
  "switch_overview_loop st [] = ret ()"
| "switch_overview_loop st (tab # tabs) =
     bnd (lift (el_text tab)) (\<lambda>t.
       if str_contains ''overview'' (lower t) \<or> str_contains ''about'' (lower t) then
         bnd (lift (el_attr tab ''class'')) (\<lambda>cls.
           case cls of
             None \<Rightarrow> raise TypeError
           | Some c \<Rightarrow>
               if \<not> str_contains ''_selected'' c
               then try_except (execute_script st ''arguments[0].click();'' (Some tab))
                      (\<lambda>e. ret ())
               else ret ())
       else switch_overview_loop st tabs)"

definition switch_to_overview :: "site \<Rightarrow> unit act" where
  "switch_to_overview st =
     try_except (bnd (find_elements overview_tabs_xpath) (switch_overview_loop st)) (\<lambda>e. ret ())"

text \<open>STEP 1: the name.\<close>

definition extract_name :: "string act" where
  "extract_name =
     bnd (get_text [''.orgpage-header-view__title'', ''.card-title-view__title'', ''h1'',
                    ''.business-card-title-view__title''])
       (\<lambda>name. if name = [] then get_attribute [''meta[itemprop='name']''] ''content''
                else ret name)"

text \<open>STEP 2: category and description.\<close>

fun collect_categories :: "element list \<Rightarrow> string list \<Rightarrow> exn + string list" where
  "collect_categories [] categories = Inr categories"
| "collect_categories (link # links) categories =
     (case el_text link of
        Inl e \<Rightarrow> Inl e
      | Inr t \<Rightarrow>
          if strip t \<noteq> [] \<and> strip t \<notin> set categories
          then collect_categories links (categories @ [strip t])
          else collect_categories links categories)"

definition category_from_links :: "string act" where
  "category_from_links =
     try_except
       (bnd (find_elements ''a[href*='/category/']'') (\<lambda>category_links.
        bnd (lift (collect_categories category_links [])) (\<lambda>categories.
        if categories \<noteq> [] then ret (join '', '' (take 3 categories)) else ret [])))
       (\<lambda>e. ret [])"

definition extract_category :: "string act" where
  "extract_category =
     bnd category_from_links (\<lambda>category.
       if category = [] then
         get_text [''.orgpage-header-view__categories a'', ''.business-categories-view__category'',
                   ''.business-card-title-view__category'', ''.card-title-view__category'']
       else ret category)"

definition extract_description :: "string act" where
  "extract_description =
     get_text [''.orgpage-header-view__description'', ''.business-card-title-view__description'',
               ''.card-title-view__description'', ''.business-card-title-view__subtitle'',
               ''.orgpage-header-view__subtitle'']"

text \<open>
  STEP 4 to STEP 6, run when \<^verbatim>\<open>scrape_photos\<close> is set: open the gallery, download,
  and go back to the overview.
  \<^verbatim>\<open>
  base, qry = current_url.split("?", 1); gallery_url = f"{base}gallery/?{qry}"
  gallery_url = f"{current_url.rstrip('/')}/gallery/"
  \<close>
\<close>

definition gallery_url :: "string \<Rightarrow> string" where
  "gallery_url url =
     (if str_contains ''?'' url then
        takeWhile (\<lambda>c. c \<noteq> CHR ''?'') url @ ''gallery/?'' @ tl (dropWhile (\<lambda>c. c \<noteq> CHR ''?'') url)
      else rev (dropWhile (\<lambda>c. c = CHR ''/'') (rev url)) @ ''/gallery/'')"

definition open_gallery :: "site \<Rightarrow> unit act" where
  "open_gallery st =
     bnd (try_except
            (bnd (find_elements
                    (''.business-photos-view__more, .business-card-title-view__photo, '' @
                     ''.business-photos-view''))
               (\<lambda>photo_gallery_buttons.
                  if photo_gallery_buttons \<noteq> []
                  then execute_script st ''arguments[0].click();''
                         (Some (hd photo_gallery_buttons))
                  else ret ()))
            (\<lambda>e. ret ())) (\<lambda>_.
     bnd (find_elements ''.media-wrapper__media'') (\<lambda>media.
       if media = [] then
         bnd get_current_url (\<lambda>url.
           if \<not> str_contains ''/gallery/'' url
           then try_except (driver_get st (gallery_url url)) (\<lambda>e. ret ())
           else ret ())
       else ret ()))"

definition back_to_overview :: "site \<Rightarrow> unit act" where
  "back_to_overview st =
     bnd get_current_url (\<lambda>url.
       if str_contains ''/gallery/'' url then
         bnd (driver_get st (replace ''/gallery/'' ''/'' url)) (\<lambda>_.
         bnd (switch_to_overview st) (\<lambda>_.
         execute_script st ''window.scrollBy(0, 1000);'' None))
       else ret ())"

definition scrape_listing_photos :: "site \<Rightarrow> config \<Rightarrow> string \<Rightarrow> string list act" where
  "scrape_listing_photos st cfg place_folder =
     (if scrape_photos cfg then
        bnd (open_gallery st) (\<lambda>_.
        bnd (extract_photos st cfg place_folder) (\<lambda>photos.
        bnd (back_to_overview st) (\<lambda>_.
        ret photos)))
      else ret [])"

text \<open>
  STEP 7: the features. The dictionary keeps the order of insertion; an exception in
  the first loop ends the extraction with what was stored so far, one in an item of the
  second loop skips the item.
\<close>

fun bool_features_loop ::
  "element list \<Rightarrow> (string \<times> feature_value) list \<Rightarrow> exn option \<times> (string \<times> feature_value) list"
where
  "bool_features_loop [] features = (None, features)"
| "bool_features_loop (bf # bfs) features =
     (case el_text bf of
        Inl e \<Rightarrow> (Some e, features)
      | Inr t \<Rightarrow>
          bool_features_loop bfs
            (if strip t \<noteq> [] then AList.update (strip t) FTrue features else features))"

definition valued_feature :: "element \<Rightarrow> (string \<times> string) option" where
  "valued_feature vf =
     (case first_match (el_find vf ''.business-features-view__valued-title'') of
        Inl e \<Rightarrow> None
      | Inr title_el \<Rightarrow>
          (case el_text title_el of
             Inl e \<Rightarrow> None
           | Inr tt \<Rightarrow>
               (case first_match (el_find vf ''.business-features-view__valued-value'') of
                  Inl e \<Rightarrow> None
                | Inr value_el \<Rightarrow>
                    (case el_text value_el of
                       Inl e \<Rightarrow> None
                     | Inr vt \<Rightarrow> Some (rstrip_colon (strip tt), strip vt)))))"

fun valued_features_loop ::
  "element list \<Rightarrow> (string \<times> feature_value) list \<Rightarrow> (string \<times> feature_value) list"
where
  "valued_features_loop [] features = features"
| "valued_features_loop (vf # vfs) features =
     valued_features_loop vfs
       (case valued_feature vf of
          None \<Rightarrow> features
        | Some (title, val) \<Rightarrow>
            if title \<noteq> [] \<and> val \<noteq> [] then AList.update title (FValue val) features
            else features)"

definition extract_features :: "(string \<times> feature_value) list act" where
  "extract_features =
     (\<lambda>w. case find_elements ''.business-features-view__bool-text'' w of
        (Inl e, w') \<Rightarrow> (Inr [], w')
      | (Inr bool_features, w') \<Rightarrow>
          (case bool_features_loop bool_features [] of
             (Some e, features) \<Rightarrow> (Inr features, w')
           | (None, features) \<Rightarrow>
               (case find_elements ''.business-features-view__valued'' w' of
                  (Inl e, w'') \<Rightarrow> (Inr features, w'')
                | (Inr valued_features, w'') \<Rightarrow>
                    (Inr (valued_features_loop valued_features features), w''))))"

definition extract_address :: "string act" where
  "extract_address =
     bnd (get_attribute [''meta[itemprop='address']''] ''content'') (\<lambda>address.
       if address = [] then
         get_text [''.business-contacts-view__address-link'', ''.business-contacts-view__address'',
                   ''[data-id='address']'']
       else ret address)"

definition extract_website :: "string act" where
  "extract_website =
     bnd (get_attribute [''.business-urls-view__link'', ''a[itemprop='url']''] ''href'') (\<lambda>website.
       if website = [] then get_text [''.business-urls-view__text''] else ret website)"

definition extract_phone :: "string act" where
  "extract_phone =
     get_text [''span[itemprop='telephone']'', ''.card-phones-view__number'',
               ''.business-phone-view__number'']"

definition extract_working_hours :: "string list act" where
  "extract_working_hours =
     bnd (get_all_attributes ''meta[itemprop='openingHours']'' ''content'') (\<lambda>working_hours.
       if working_hours = [] then
         bnd (get_text [''.business-working-status-view__text'']) (\<lambda>working_hours_text.
           if working_hours_text \<noteq> [] then ret [working_hours_text] else ret working_hours)
       else ret working_hours)"

text \<open>
  The body of \<^verbatim>\<open>_extract_details\<close>. A timeout of the wait for the header returns
  \<^verbatim>\<open>None\<close>; every other exception leaves the body. \<open>extract_fields\<close> is the part
  of the body after that wait.
\<close>

definition details_loaded :: "site \<Rightarrow> bool act" where
  "details_loaded st =
     try_except_only TimeoutException
       (bnd (wait_until_visible st
               (''.card-title-view__title, .orgpage-header-view__title, '' @
                ''.business-card-view''))
          (\<lambda>_. ret True))
       (\<lambda>e. ret False)"

text \<open>STEP 8: the reviews, when \<^verbatim>\<open>scrape_reviews\<close> is set.\<close>

definition scrape_listing_reviews :: "site \<Rightarrow> config \<Rightarrow> review list act" where
  "scrape_listing_reviews st cfg = (if scrape_reviews cfg then extract_reviews st else ret [])"

definition extract_fields :: "site \<Rightarrow> config \<Rightarrow> nat \<Rightarrow> string \<Rightarrow> place option act" where
  "extract_fields st cfg index query =
     bnd (switch_to_overview st) (\<lambda>_.
     bnd (execute_script st ''window.scrollBy(0, 1000);'' None) (\<lambda>_.
     bnd (execute_script st ''window.scrollBy(0, 1000);'' None) (\<lambda>_.
     bnd extract_name (\<lambda>name.
     bnd extract_category (\<lambda>category.
     bnd extract_description (\<lambda>description.
     bnd (create_place_folder st
            (if name \<noteq> [] then name else ''Place_'' @ str_of_nat index) index)
       (\<lambda>place_folder.
     bnd (scrape_listing_photos st cfg place_folder) (\<lambda>photos.
     bnd extract_features (\<lambda>features.
     bnd extract_address (\<lambda>address.
     bnd extract_website (\<lambda>website.
     bnd extract_phone (\<lambda>phone.
     bnd extract_working_hours (\<lambda>working_hours.
     bnd extract_social_links (\<lambda>social_media.
     bnd extract_rating (\<lambda>rating.
     bnd extract_reviews_count (\<lambda>reviews_count.
     bnd get_current_url (\<lambda>link.
     bnd (scrape_listing_reviews st cfg) (\<lambda>reviews.
     ret (Some \<lparr>p_id = index, p_name = name, p_category = category,
                 p_description = description, p_features = features,
                 p_address = address, p_website = website, p_phone = phone,
                 p_rating = rating, p_reviews_count = reviews_count,
                 p_working_hours = working_hours, p_folder_path = place_folder,
                 p_link = link, p_social_media = social_media, p_photos = photos,
                 p_reviews = reviews, p_search_query = None\<rparr>)))))))))))))))))))"

definition extract_details_body :: "site \<Rightarrow> config \<Rightarrow> nat \<Rightarrow> string \<Rightarrow> place option act" where
  "extract_details_body st cfg index query =
     bnd (details_loaded st) (\<lambda>loaded.
       if \<not> loaded then ret None else extract_fields st cfg index query)"

text \<open>\<^verbatim>\<open>@handle_errors(default_return=None)\<close> around the body.\<close>

definition extract_details :: "site \<Rightarrow> config \<Rightarrow> nat \<Rightarrow> string \<Rightarrow> place option act" where
  "extract_details st cfg index query =
     handle_errors None (extract_details_body st cfg index query)"

section \<open>Listing discovery (\<^verbatim>\<open>_scroll_and_collect_results\<close>)\<close>

text \<open>
  The link of one snippet: the selectors are tried in order, a failing lookup is
  skipped, and the first non-empty \<^verbatim>\<open>href\<close> ends the search.
\<close>

fun snippet_href :: "element \<Rightarrow> string list \<Rightarrow> string option" where
  "snippet_href el [] = None"
| "snippet_href el (sel # sels) =
     (case first_match (el_find el sel) of
        Inl e \<Rightarrow> snippet_href el sels
      | Inr link_el \<Rightarrow>
          (case el_attr link_el ''href'' of
             Inl e \<Rightarrow> snippet_href el sels
           | Inr None \<Rightarrow> snippet_href el sels
           | Inr (Some href) \<Rightarrow> if href \<noteq> [] then Some href else snippet_href el sels))"

definition link_selectors :: "string list" where
  "link_selectors =
     [''.search-snippet-view__link-overlay'', ''.search-snippet-view__title-link'',
      ''a.search-snippet-view__link-overlay'', ''.search-snippet-view__body a'']"

text \<open>
  \<^verbatim>\<open>links\<close> is a Python set. It is modelled by the list of its members without
  repetition, in the order in which they were added; \<^verbatim>\<open>list(links)\<close> is that list.
  Python fixes no order for it, and no property below depends on the order.
\<close>

definition add_link :: "string \<Rightarrow> string list \<Rightarrow> string list" where
  "add_link href links = (if href \<in> set links then links else links @ [href])"

fun collect_links :: "element list \<Rightarrow> string list \<Rightarrow> string list" where
  "collect_links [] links = links"
| "collect_links (el # els) links =
     collect_links els
       (case snippet_href el link_selectors of
          None \<Rightarrow> links
        | Some href \<Rightarrow> add_link href links)"

text \<open>
  The \<^verbatim>\<open>while True\<close> loop, with fuel: \<open>None\<close> means that the loop is still running
  when the fuel is used up. Besides the links the model returns why the loop stopped and
  the values \<^verbatim>\<open>current_count\<close> took, one per iteration; they are not part of what the
  code returns.
\<close>

datatype stop_reason = TargetReached | Stalled | ScrollFailed

primrec scroll_loop ::
  "site \<Rightarrow> config \<Rightarrow> nat \<Rightarrow> nat \<Rightarrow> nat \<Rightarrow> string list \<Rightarrow> nat list \<Rightarrow> world \<Rightarrow>
   ((exn + string list \<times> stop_reason \<times> nat list) \<times> world) option"
where
  "scroll_loop st cfg 0 last_count attempts links seen w = None"
| "scroll_loop st cfg (Suc fuel) last_count attempts links seen w =
     (case find_elements ''.search-snippet-view'' w of
        (Inl e, w1) \<Rightarrow> Some (Inl e, w1)
      | (Inr elements, w1) \<Rightarrow>
          let current_count = length elements;
              links1 = collect_links elements links;
              seen1 = seen @ [current_count]
          in
          if max_results cfg \<le> int (length links1) then
            Some (Inr (slice_to (max_results cfg) links1, TargetReached, seen1), w1)
          else if current_count = last_count \<and> 5 \<le> attempts + 1 then
            Some (Inr (slice_to (max_results cfg) links1, Stalled, seen1), w1)
          else
            let attempts1 = (if current_count = last_count then attempts + 1 else 0) in
            if elements \<noteq> [] then
              (case execute_script st ''arguments[0].scrollIntoView(true);''
                      (Some (last elements)) w1 of
                 (Inl e, w2) \<Rightarrow>
                   Some (Inr (slice_to (max_results cfg) links1, ScrollFailed, seen1), w2)
               | (Inr u, w2) \<Rightarrow> scroll_loop st cfg fuel current_count attempts1 links1 seen1 w2)
            else scroll_loop st cfg fuel current_count attempts1 links1 seen1 w1)"

definition scroll_trace ::
  "site \<Rightarrow> config \<Rightarrow> nat \<Rightarrow> world \<Rightarrow>
   ((exn + string list \<times> stop_reason \<times> nat list) \<times> world) option" where
  "scroll_trace st cfg fuel w = scroll_loop st cfg fuel 0 0 [] [] w"

definition scroll_and_collect_results ::
  "site \<Rightarrow> config \<Rightarrow> nat \<Rightarrow> world \<Rightarrow> ((exn + string list) \<times> world) option" where
  "scroll_and_collect_results st cfg fuel w =
     (case scroll_trace st cfg fuel w of
        None \<Rightarrow> None
      | Some (Inl e, w') \<Rightarrow> Some (Inl e, w')
      | Some (Inr (links, reason, seen), w') \<Rightarrow> Some (Inr links, w'))"

text \<open>
  The last five iterations each saw as many snippets as the iteration before (the count
  before the first iteration being \<^verbatim>\<open>last_count = 0\<close>): the last six entries of the
  counts, with that zero in front, are equal.
\<close>

definition five_stalls :: "nat list \<Rightarrow> bool" where
  "five_stalls seen =
     (5 \<le> length seen \<and>
      drop (length seen - 5) (0 # seen) = replicate 6 (last (0 # seen)))"

section \<open>The orchestrator (\<^verbatim>\<open>setup_driver\<close>, \<^verbatim>\<open>_perform_search\<close>, \<^verbatim>\<open>run\<close>)\<close>

text \<open>
  \<^verbatim>\<open>setup_driver\<close>. The Chrome and the Safari branch read \<^verbatim>\<open>sys.platform\<close>, and
  the module never imports \<^verbatim>\<open>sys\<close>: both raise \<^verbatim>\<open>NameError\<close> before a driver is
  made. The Firefox and the Edge branch install the driver binary and start the browser,
  which either fails or sets \<^verbatim>\<open>self.driver\<close>.
\<close>

definition setup_driver :: "site \<Rightarrow> config \<Rightarrow> unit act" where
  "setup_driver st cfg =
     log_execution ''setup_driver''
       (if browser_type cfg = ''chrome'' then raise NameError
        else if browser_type cfg = ''firefox'' \<or> browser_type cfg = ''edge'' then
          (\<lambda>w. case launch st (browser_type cfg) (headless cfg) of
                  Inl e \<Rightarrow> (Inl e, w)
                | Inr b \<Rightarrow> (Inr (), w\<lparr>driver := Some b, quit_called := False\<rparr>))
        else if browser_type cfg = ''safari'' then raise NameError
        else raise ValueError)"

definition perform_search :: "site \<Rightarrow> string \<Rightarrow> unit act" where
  "perform_search st query =
     try_except_only TimeoutException
       (bnd (wait_until_present st ''input.input__control, input[type='text']'')
          (\<lambda>search_input.
        bnd (change_driver (clear_input st search_input)) (\<lambda>_.
        bnd (change_driver (type_keys st search_input (KeysText query))) (\<lambda>_.
        bnd (change_driver (type_keys st search_input KeysReturn)) (\<lambda>_.
        bnd (wait_until_present st ''.search-list-view, .search-snippet-view'') (\<lambda>_.
        ret ()))))))
       (\<lambda>e. bnd (log_msg (LogError ''Search box not found or results did not load.''))
               (\<lambda>_. raise e))"

text \<open>\<^verbatim>\<open>if self.on_progress: self.on_progress(completed, total, msg)\<close>.\<close>

definition report_progress :: "site \<Rightarrow> nat \<Rightarrow> int \<Rightarrow> string \<Rightarrow> unit act" where
  "report_progress st completed total_count msg =
     (case on_progress st of
        None \<Rightarrow> ret ()
      | Some callback \<Rightarrow>
          (case callback completed total_count msg of Some e \<Rightarrow> raise e | None \<Rightarrow> ret ()))"

text \<open>The URL a listing is opened at: gallery markers are removed.\<close>

definition normalize_link :: "string \<Rightarrow> string" where
  "normalize_link link =
     (let main_url = (if str_contains ''/gallery/'' link then replace ''/gallery/'' ''/'' link
                      else link)
      in if str_contains ''tab=gallery'' main_url then remove_tab_gallery main_url
         else main_url)"

text \<open>
  The loop over the links: an exception while a listing is opened or read is logged and
  the loop goes on; the progress callback is outside that \<^verbatim>\<open>try\<close>.
\<close>

primrec process_places ::
  "site \<Rightarrow> config \<Rightarrow> string \<Rightarrow> nat \<Rightarrow> string list \<Rightarrow> nat \<Rightarrow> place list \<Rightarrow> place list act"
where
  "process_places st cfg query total_links [] i extracted_data = ret extracted_data"
| "process_places st cfg query total_links (link # rest) i extracted_data =
     bnd (report_progress st i (int total_links)
            (''Processing place '' @ str_of_nat (i + 1) @ ''/'' @ str_of_nat total_links)) (\<lambda>_.
     bnd (try_except
            (bnd (driver_get st (normalize_link link)) (\<lambda>_.
             bnd (extract_details st cfg (i + 1) query) (\<lambda>place_data.
             ret (case place_data of
                    None \<Rightarrow> extracted_data
                  | Some d \<Rightarrow> extracted_data @ [d]))))
            (\<lambda>e. bnd (log_msg (LogError (''Error processing place '' @ str_of_nat (i + 1))))
                    (\<lambda>_. ret extracted_data))) (\<lambda>extracted_data1.
     process_places st cfg query total_links rest (Suc i) extracted_data1))"

text \<open>The body of the \<^verbatim>\<open>try\<close> of \<^verbatim>\<open>run\<close>, before and after the discovery.\<close>

definition run_search :: "site \<Rightarrow> config \<Rightarrow> string \<Rightarrow> unit act" where
  "run_search st cfg query =
     bnd (setup_driver st cfg) (\<lambda>_.
     bnd (setup_session_directory st query) (\<lambda>_.
     bnd (driver_get st ''https://yandex.ru/maps'') (\<lambda>_.
     bnd (perform_search st query) (\<lambda>_.
     report_progress st 0 (max_results cfg) ''Scrolling and collecting links...''))))"

definition run_places :: "site \<Rightarrow> config \<Rightarrow> string \<Rightarrow> string list \<Rightarrow> unit act" where
  "run_places st cfg query place_links =
     bnd (process_places st cfg query (length place_links) place_links 0 []) (\<lambda>extracted_data.
     bnd (report_progress st (length place_links) (int (length place_links)) ''Saving data...'')
       (\<lambda>_.
     save_results st (map (\<lambda>item. item\<lparr>p_search_query := Some query\<rparr>) extracted_data)))"

text \<open>\<^verbatim>\<open>finally: if self.driver: self.driver.quit()\<close>.\<close>

definition driver_quit :: "site \<Rightarrow> unit act" where
  "driver_quit st =
     (\<lambda>w. case driver w of
        None \<Rightarrow> (Inr (), w)
      | Some b \<Rightarrow>
          (case quit_error st b of
             Some e \<Rightarrow> (Inl e, w\<lparr>quit_called := True\<rparr>)
           | None \<Rightarrow> (Inr (), w\<lparr>quit_called := True\<rparr>)))"

text \<open>
  The \<^verbatim>\<open>except Exception\<close> and the \<^verbatim>\<open>finally\<close> of \<^verbatim>\<open>run\<close>: a failure of the body
  is logged as critical, then the driver is quit. An exception of \<^verbatim>\<open>quit\<close> itself
  leaves \<^verbatim>\<open>run\<close>, through its \<^verbatim>\<open>log_execution\<close> wrapper.
\<close>

definition run_exit :: "site \<Rightarrow> exn option \<Rightarrow> unit act" where
  "run_exit st failure =
     log_execution ''run''
       (bnd (case failure of
               Some e \<Rightarrow> log_msg (LogCritical ''Critical failure'')
             | None \<Rightarrow> ret ()) (\<lambda>_.
        driver_quit st))"

text \<open>
  \<^verbatim>\<open>run\<close>. The result \<open>None\<close> means that \<^verbatim>\<open>run\<close> has not returned within the fuel
  given to the discovery loop.
\<close>

definition run :: "site \<Rightarrow> config \<Rightarrow> nat \<Rightarrow> string \<Rightarrow> world \<Rightarrow> ((exn + unit) \<times> world) option" where
  "run st cfg fuel query w =
     (case run_search st cfg query w of
        (Inl e, w1) \<Rightarrow> Some (run_exit st (Some e) w1)
      | (Inr u, w1) \<Rightarrow>
          (case scroll_and_collect_results st cfg fuel w1 of
             None \<Rightarrow> None
           | Some (Inl e, w2) \<Rightarrow> Some (run_exit st (Some e) w2)
           | Some (Inr place_links, w2) \<Rightarrow>
               (case run_places st cfg query place_links w2 of
                  (Inl e, w3) \<Rightarrow> Some (run_exit st (Some e) w3)
                | (Inr u', w3) \<Rightarrow> Some (run_exit st None w3))))"

section \<open>Auxiliary notions for the proofs\<close>

text \<open>An action that writes no file.\<close>

definition keeps_files :: "'a act \<Rightarrow> bool" where
  "keeps_files m = (\<forall>w. files (snd (m w)) = files w)"

text \<open>An action that never raises.\<close>

definition never_raises :: "'a act \<Rightarrow> bool" where
  "never_raises m = (\<forall>w. \<exists>x. fst (m w) = Inr x)"

text \<open>
  What the photo pipeline writes: the payload of a response with status 200 and more
  than 1000 bytes, or, when the configured format is \<^verbatim>\<open>webp\<close> or \<^verbatim>\<open>png\<close>, what the
  image library made of such a payload.
\<close>

definition accepted_content :: "site \<Rightarrow> config \<Rightarrow> string \<Rightarrow> bool" where
  "accepted_content st cfg c =
     (\<exists>jar url payload.
        http_get st jar url = Inr (200, payload) \<and> 1000 < length payload \<and>
        (c = payload \<or>
         (needs_conversion cfg \<and>
          image_convert st (upper (photo_format cfg)) payload = Inr c)))"

definition holds_accepted :: "site \<Rightarrow> config \<Rightarrow> world \<Rightarrow> string \<Rightarrow> bool" where
  "holds_accepted st cfg w path = (\<exists>c. files w path = Some c \<and> accepted_content st cfg c)"

text \<open>Between two states only accepted content was written.\<close>

definition wrote_accepted :: "site \<Rightarrow> config \<Rightarrow> world \<Rightarrow> world \<Rightarrow> bool" where
  "wrote_accepted st cfg w w' = (\<forall>p. files w' p = files w p \<or> holds_accepted st cfg w' p)"

text \<open>
  The four export formats, each with the function that writes it, its file, and the
  error it logs on failure.
\<close>

datatype export_format = Json | Csv | Sqlite | Excel

definition export_one :: "site \<Rightarrow> place list \<Rightarrow> export_format \<Rightarrow> string act" where
  "export_one st data f =
     (case f of
        Json \<Rightarrow> save_json st data
      | Csv \<Rightarrow> export_to_csv st data
      | Sqlite \<Rightarrow> save_to_sqlite st data
      | Excel \<Rightarrow> export_to_excel st data)"

definition export_path :: "world \<Rightarrow> export_format \<Rightarrow> string" where
  "export_path w f =
     path_join (current_session_dir w)
       (case f of
          Json \<Rightarrow> ''places_data.json''
        | Csv \<Rightarrow> ''places_data.csv''
        | Sqlite \<Rightarrow> ''places_data.db''
        | Excel \<Rightarrow> ''places_data.xlsx'')"

text \<open>
  What the export of a format hands to the file: an exception raised before the file is
  opened, or the writer.
\<close>

definition export_content :: "site \<Rightarrow> place list \<Rightarrow> export_format \<Rightarrow> exn + (string option \<Rightarrow> serialised)" where
  "export_content st data f =
     (case f of
        Json \<Rightarrow> Inr (\<lambda>former. json_dump st data)
      | Csv \<Rightarrow> (case csv_encode st data of Inl e \<Rightarrow> Inl e | Inr df \<Rightarrow> Inr (\<lambda>former. df))
      | Sqlite \<Rightarrow> sqlite_encode st data
      | Excel \<Rightarrow> (case excel_encode st data of Inl e \<Rightarrow> Inl e | Inr df \<Rightarrow> Inr (\<lambda>former. df)))"

definition export_error :: "export_format \<Rightarrow> log_entry" where
  "export_error f =
     (case f of
        Json \<Rightarrow> LogError ''Failed to save JSON''
      | Csv \<Rightarrow> LogError ''Failed to export CSV''
      | Sqlite \<Rightarrow> LogError ''Failed to save SQLite''
      | Excel \<Rightarrow> LogError ''Failed to export Excel'')"

text \<open>An export is attempted when there is a session directory and, except for JSON, data.\<close>

definition export_attempted :: "world \<Rightarrow> place list \<Rightarrow> export_format \<Rightarrow> bool" where
  "export_attempted w data f = (current_session_dir w \<noteq> [] \<and> (f = Json \<or> data \<noteq> []))"

text \<open>
  An attempted export fails when the data frame cannot be made, the file cannot be
  opened, or the writer raises.
\<close>

definition export_fails :: "site \<Rightarrow> place list \<Rightarrow> world \<Rightarrow> export_format \<Rightarrow> bool" where
  "export_fails st data w f =
     (case export_content st data f of
        Inl e \<Rightarrow> True
      | Inr writer \<Rightarrow>
          write_error st (export_path w f) \<noteq> None \<or>
          (case writer (files w (export_path w f)) of
             Written content \<Rightarrow> False
           | Interrupted e part \<Rightarrow> True))"

text \<open>What one export does to the state, written out.\<close>

definition export_effect :: "site \<Rightarrow> place list \<Rightarrow> export_format \<Rightarrow> log_entry \<Rightarrow> world \<Rightarrow> (exn + string) \<times> world" where
  "export_effect st data f ok w =
     (if \<not> export_attempted w data f then (Inr [], w)
      else
        (case export_content st data f of
           Inl e \<Rightarrow> (Inr [], w\<lparr>logged := logged w @ [export_error f]\<rparr>)
         | Inr writer \<Rightarrow>
             (case write_error st (export_path w f) of
                Some e \<Rightarrow> (Inr [], w\<lparr>logged := logged w @ [export_error f]\<rparr>)
              | None \<Rightarrow>
                  (case writer (files w (export_path w f)) of
                     Written content \<Rightarrow>
                       (Inr (export_path w f),
                        w\<lparr>files := (files w)(export_path w f \<mapsto> content),
                          logged := logged w @ [ok]\<rparr>)
                   | Interrupted e part \<Rightarrow>
                       (Inr [],
                        w\<lparr>files := (files w)(export_path w f \<mapsto> part),
                          logged := logged w @ [export_error f]\<rparr>)))))"

definition export_ok :: "export_format \<Rightarrow> log_entry" where
  "export_ok f =
     (case f of Json \<Rightarrow> LogInfo ''JSON saved'' | Csv \<Rightarrow> LogInfo ''CSV exported''
      | Sqlite \<Rightarrow> LogInfo ''SQLite saved'' | Excel \<Rightarrow> LogInfo ''Excel exported'')"


text \<open>
  The file of a format after its export alone. It is as before when the export is not
  attempted, when the data frame cannot be made and when the file cannot be opened.
  Otherwise it holds what the writer wrote: everything, or the part written before the
  writer raised.
\<close>

definition expected_file :: "site \<Rightarrow> place list \<Rightarrow> world \<Rightarrow> export_format \<Rightarrow> string option" where
  "expected_file st data w f =
     (if \<not> export_attempted w data f then files w (export_path w f)
      else
        (case export_content st data f of
           Inl e \<Rightarrow> files w (export_path w f)
         | Inr writer \<Rightarrow>
             if write_error st (export_path w f) \<noteq> None then files w (export_path w f)
             else
               (case writer (files w (export_path w f)) of
                  Written content \<Rightarrow> Some content
                | Interrupted e part \<Rightarrow> Some part)))"

text \<open>Across the exports the session directory stays the same.\<close>

definition same_exports :: "world \<Rightarrow> world \<Rightarrow> bool" where
  "same_exports w w1 = (current_session_dir w1 = current_session_dir w)"

text \<open>
  The numbers of the files of a pass over the gallery. The outcomes list gives, for
  each candidate examined, in the order of the enumeration, the extension of the file
  saved for it, if one was saved; the candidate at index \<open>k\<close> of the enumeration,
  which started at \<open>i\<close>, gives the file with the number \<open>k + 1\<close>.
\<close>

definition numbered :: "nat \<Rightarrow> string option list \<Rightarrow> (nat \<times> string) list" where
  "numbered i outcomes =
     List.map_filter (\<lambda>(k, outcome). map_option (\<lambda>ext. (k + 1, ext)) outcome)
       (enumerate i outcomes)"
section \<open>Concrete sites and pages\<close>

text \<open>
  A site on which every external call succeeds: navigation, scripts and waits leave the
  page as it is, a download returns 1001 bytes with status 200, the image library returns
  one byte, and every write succeeds.
\<close>

definition text_element :: "string \<Rightarrow> element" where
  "text_element t = Element (Inr t) (\<lambda>a. Inr None) (\<lambda>s. Inr [])"

definition ex_browser :: browser where
  "ex_browser =
     \<lparr>current_url = ''https://yandex.ru/maps/org/cafe/1/'', dom = (\<lambda>s. Inr []), cookies = Inr []\<rparr>"

definition ex_site :: site where
  "ex_site =
     \<lparr>launch = (\<lambda>t h. Inr ex_browser),
      quit_error = (\<lambda>b. None),
      navigate = (\<lambda>url b. Inr b),
      run_script = (\<lambda>js arg b. Inr b),
      wait_visible = (\<lambda>s b. Inr b),
      wait_present = (\<lambda>s b. Inr (text_element [], b)),
      clear_input = (\<lambda>el b. Inr b),
      type_keys = (\<lambda>el k b. Inr b),
      http_get = (\<lambda>jar url. Inr (200, replicate 1001 CHR ''x'')),
      image_convert = (\<lambda>fmt content. Inr ''x''),
      write_error = (\<lambda>path. None),
      makedirs_error = (\<lambda>path. None),
      json_encode = (\<lambda>data. Written ''[{}]''),
      csv_encode = (\<lambda>data. Inr (Written ''id,name'')),
      sqlite_encode = (\<lambda>data. Inr (\<lambda>former. Written ''SQLite'')),
      excel_encode = (\<lambda>data. Inr (Written ''PK'')),
      on_progress = None,
      timestamp = ''20260101_120000''\<rparr>"

definition ex_cfg :: config where
  "ex_cfg =
     \<lparr>headless = True, max_results = 2, scrape_photos = True, scrape_reviews = True,
      photo_format = ''jpg'', max_photos = 5, browser_type = ''firefox''\<rparr>"

definition ex_world :: "browser \<Rightarrow> world" where
  "ex_world b =
     \<lparr>driver = Some b, quit_called = False, session_cookies = (\<lambda>n. None),
      current_session_dir = ''out/run'', files = (\<lambda>p. None), logged = []\<rparr>"

text \<open>A page with two reviews, the second without a rating.\<close>

definition rated_review :: element where
  "rated_review =
     Element (Inr ''Ann 5'') (\<lambda>a. Inr None)
       (\<lambda>s. if s = ''.business-rating-badge-view__rating-text'' then Inr [text_element ''5'']
            else if s = ''.business-review-view__author-name'' then Inr [text_element ''Ann'']
            else Inr [])"

definition unrated_review :: element where
  "unrated_review =
     Element (Inr ''Bob'') (\<lambda>a. Inr None)
       (\<lambda>s. if s = ''.business-review-view__author-name'' then Inr [text_element ''Bob'']
            else Inr [])"

definition reviews_browser :: browser where
  "reviews_browser =
     ex_browser\<lparr>dom := (\<lambda>s. if s = ''.business-review-view''
                             then Inr [rated_review, unrated_review] else Inr [])\<rparr>"

text \<open>Gallery images: with a source, and without one.\<close>

definition image_element :: "string option \<Rightarrow> element" where
  "image_element src =
     Element (Inr []) (\<lambda>a. if a = ''src'' then Inr src else Inr None) (\<lambda>s. Inr [])"

definition gallery_browser :: "element list \<Rightarrow> browser" where
  "gallery_browser imgs =
     ex_browser\<lparr>dom := (\<lambda>s. if s = gallery_images_selector then Inr imgs else Inr [])\<rparr>"

definition one_image :: element where
  "one_image = image_element (Some ''https://a.example/get/1/M_height'')"

definition icon_image :: element where
  "icon_image = image_element (Some ''https://a.example/static/icon.png'')"

text \<open>The records and the states these pages give.\<close>

definition empty_record :: place where
  "empty_record =
     \<lparr>p_id = 1, p_name = [], p_category = [], p_description = [], p_features = [],
      p_address = [], p_website = [], p_phone = [], p_rating = [], p_reviews_count = [],
      p_working_hours = [], p_folder_path = ''out/run/001_Place_1'',
      p_link = ''https://yandex.ru/maps/org/cafe/1/'', p_social_media = [], p_photos = [],
      p_reviews = [], p_search_query = None\<rparr>"

definition reviews_record :: place where
  "reviews_record =
     empty_record\<lparr>p_reviews :=
       [\<lparr>r_author = ''Ann'', r_text = [], r_rating = ''5'', r_date = []\<rparr>]\<rparr>"

definition photos_record :: "string \<Rightarrow> place" where
  "photos_record ext =
     empty_record\<lparr>p_photos := [''out/run/001_Place_1/photos/photo_1.'' @ ext]\<rparr>"

definition photos_world :: "string \<Rightarrow> string \<Rightarrow> world" where
  "photos_world ext content =
     (ex_world (gallery_browser [one_image]))
       \<lparr>files := (\<lambda>p. None)(''out/run/001_Place_1/photos/photo_1.'' @ ext \<mapsto> content)\<rparr>"

text \<open>A page whose title element has gone stale when its text is read.\<close>

definition stale_title :: element where
  "stale_title = Element (Inl StaleElementReferenceException) (\<lambda>a. Inr None) (\<lambda>s. Inr [])"

definition stale_browser :: browser where
  "stale_browser =
     ex_browser\<lparr>dom := (\<lambda>s. if s = ''.orgpage-header-view__title'' then Inr [stale_title]
                            else Inr [])\<rparr>"

text \<open>A result list of one snippet, and a site on which every script fails.\<close>

definition link_element :: "string \<Rightarrow> element" where
  "link_element href =
     Element (Inr []) (\<lambda>a. if a = ''href'' then Inr (Some href) else Inr None) (\<lambda>s. Inr [])"

definition snippet :: element where
  "snippet =
     Element (Inr ''Cafe'') (\<lambda>a. Inr None)
       (\<lambda>s. if s = ''.search-snippet-view__link-overlay''
            then Inr [link_element ''https://yandex.ru/maps/org/cafe/1/''] else Inr [])"

definition results_browser :: browser where
  "results_browser =
     ex_browser\<lparr>dom := (\<lambda>s. if s = ''.search-snippet-view'' then Inr [snippet] else Inr [])\<rparr>"

definition failing_script_site :: site where
  "failing_script_site = ex_site\<lparr>run_script := (\<lambda>js arg b. Inl WebDriverException)\<rparr>"

text \<open>
  A site on which the data frame for the CSV export cannot be made and the workbook
  writer raises after it has written a part; one whose search never shows; and a fresh
  scraper.
\<close>

definition failing_exports_site :: site where
  "failing_exports_site =
     ex_site\<lparr>csv_encode := (\<lambda>data. Inl OSError),
             excel_encode := (\<lambda>data. Inr (Interrupted IllegalCharacterError ''P''))\<rparr>"

definition timeout_site :: site where
  "timeout_site = ex_site\<lparr>wait_present := (\<lambda>s b. Inl TimeoutException)\<rparr>"

definition fresh_world :: world where
  "fresh_world =
     \<lparr>driver = None, quit_called = False, session_cookies = (\<lambda>n. None),
      current_session_dir = [], files = (\<lambda>p. None), logged = []\<rparr>"

text \<open>A site on which \<^verbatim>\<open>quit\<close> raises.\<close>

definition quit_failing_site :: site where
  "quit_failing_site = ex_site\<lparr>quit_error := (\<lambda>b. Some WebDriverException)\<rparr>"

text \<open>
  A result list without links that shows one snippet and two snippets in turn, changing
  at every scroll.
\<close>

definition plain_snippet :: element where
  "plain_snippet = Element (Inr ''Cafe'') (\<lambda>a. Inr None) (\<lambda>s. Inr [])"

definition one_snippet_browser :: browser where
  "one_snippet_browser =
     ex_browser\<lparr>dom := (\<lambda>s. if s = ''.search-snippet-view'' then Inr [plain_snippet] else Inr [])\<rparr>"

definition two_snippets_browser :: browser where
  "two_snippets_browser =
     ex_browser\<lparr>dom := (\<lambda>s. if s = ''.search-snippet-view'' then Inr [plain_snippet, plain_snippet]
                            else Inr [])\<rparr>"

definition alternating_site :: site where
  "alternating_site =
     ex_site\<lparr>launch := (\<lambda>t h. Inr one_snippet_browser),
             run_script := (\<lambda>js arg b.
               Inr (if dom b ''.search-snippet-view'' = Inr [plain_snippet]
                    then two_snippets_browser else one_snippet_browser))\<rparr>"

section \<open>Rules for actions\<close>

lemma bnd_InrE:
  assumes "bnd m f w = (Inr y, w')"
  obtains x w1 where "m w = (Inr x, w1)" "f x w1 = (Inr y, w')"
  using assms by (auto simp: bnd_def split: prod.splits sum.splits)

lemma ret_eq: "ret x w = (r, w') \<longleftrightarrow> r = Inr x \<and> w' = w"
  by (auto simp: ret_def)

lemma try_except_ret_Inr:
  "try_except m (\<lambda>e. ret d) w = (Inr y, w') \<Longrightarrow> m w = (Inr y, w') \<or> y = d"
  by (auto simp: try_except_def ret_def split: prod.splits sum.splits)

lemma keeps_files_ret: "keeps_files (ret x)"
  by (simp add: keeps_files_def ret_def)

lemma keeps_files_raise: "keeps_files (raise e)"
  by (simp add: keeps_files_def raise_def)

lemma keeps_files_lift: "keeps_files (lift r)"
  by (simp add: keeps_files_def lift_def)

lemma keeps_files_log_msg: "keeps_files (log_msg l)"
  by (simp add: keeps_files_def log_msg_def)

lemma keeps_files_with_driver: "keeps_files (with_driver f)"
  by (simp add: keeps_files_def with_driver_def split: option.splits)

lemma keeps_files_change_driver: "keeps_files (change_driver f)"
  by (simp add: keeps_files_def change_driver_def split: option.splits sum.splits)

lemma keeps_files_bnd:
  assumes "keeps_files m" "\<And>x. keeps_files (f x)"
  shows "keeps_files (bnd m f)"
  unfolding keeps_files_def
proof
  fix w
  show "files (snd (bnd m f w)) = files w"
  proof (cases "m w")
    case (Pair r w1)
    then have w1: "files w1 = files w" using assms(1) by (auto simp: keeps_files_def dest: spec[of _ w])
    show ?thesis
    proof (cases r)
      case (Inl e)
      with Pair w1 show ?thesis by (simp add: bnd_def)
    next
      case (Inr x)
      have "files (snd (f x w1)) = files w1" using assms(2)[of x] by (simp add: keeps_files_def)
      with Pair Inr w1 show ?thesis by (simp add: bnd_def)
    qed
  qed
qed

lemma keeps_files_try_except:
  assumes "keeps_files m" "\<And>e. keeps_files (h e)"
  shows "keeps_files (try_except m h)"
  unfolding keeps_files_def
proof
  fix w
  show "files (snd (try_except m h w)) = files w"
  proof (cases "m w")
    case (Pair r w1)
    then have w1: "files w1 = files w" using assms(1) by (auto simp: keeps_files_def dest: spec[of _ w])
    show ?thesis
    proof (cases r)
      case (Inl e)
      have "files (snd (h e w1)) = files w1" using assms(2)[of e] by (simp add: keeps_files_def)
      with Pair Inl w1 show ?thesis by (simp add: try_except_def)
    next
      case (Inr x)
      with Pair w1 show ?thesis by (simp add: try_except_def)
    qed
  qed
qed

lemma keeps_files_if:
  "keeps_files m \<Longrightarrow> keeps_files n \<Longrightarrow> keeps_files (if c then m else n)"
  by simp

lemmas keeps_files_intros =
  keeps_files_ret keeps_files_raise keeps_files_lift keeps_files_log_msg
  keeps_files_with_driver keeps_files_change_driver keeps_files_bnd keeps_files_try_except
  keeps_files_if

lemma keeps_filesD: "keeps_files m \<Longrightarrow> m w = (r, w') \<Longrightarrow> files w' = files w"
  by (auto simp: keeps_files_def dest: spec[of _ w])

lemma keeps_files_find_elements: "keeps_files (find_elements s)"
  by (simp add: find_elements_def keeps_files_with_driver)

lemma keeps_files_find_element: "keeps_files (find_element s)"
  by (simp add: find_element_def keeps_files_with_driver)

lemma keeps_files_get_current_url: "keeps_files get_current_url"
  by (simp add: get_current_url_def keeps_files_with_driver)

lemma keeps_files_driver_get: "keeps_files (driver_get st url)"
  by (simp add: driver_get_def keeps_files_change_driver)

lemma keeps_files_execute_script: "keeps_files (execute_script st js arg)"
  by (simp add: execute_script_def keeps_files_change_driver)

lemma keeps_files_get_text_try: "keeps_files (get_text_try s)"
  unfolding get_text_try_def
  by (intro keeps_files_intros keeps_files_find_element | simp split: option.splits add: keeps_files_intros)+

lemma keeps_files_get_text: "keeps_files (get_text sels)"
proof (induction sels)
  case Nil
  show ?case by (simp add: keeps_files_ret)
next
  case (Cons s sels)
  show ?case
    unfolding keeps_files_def
  proof
    fix w
    obtain r w1 where tr: "get_text_try s w = (r, w1)" by (cases "get_text_try s w")
    have w1: "files w1 = files w" using keeps_filesD[OF keeps_files_get_text_try tr] .
    have rest: "files (snd (get_text sels w1)) = files w1" using Cons by (simp add: keeps_files_def)
    show "files (snd (get_text (s # sels) w)) = files w"
      using tr w1 rest by (auto split: sum.splits option.splits)
  qed
qed

lemma keeps_files_get_attribute_try: "keeps_files (get_attribute_try s a)"
  unfolding get_attribute_try_def
  by (intro keeps_files_intros keeps_files_find_element | simp split: option.splits add: keeps_files_intros)+

lemma keeps_files_get_attribute: "keeps_files (get_attribute sels a)"
proof (induction sels)
  case Nil
  show ?case by (simp add: keeps_files_ret)
next
  case (Cons s sels)
  show ?case
    unfolding keeps_files_def
  proof
    fix w
    obtain r w1 where tr: "get_attribute_try s a w = (r, w1)" by (cases "get_attribute_try s a w")
    have w1: "files w1 = files w" using keeps_filesD[OF keeps_files_get_attribute_try tr] .
    have rest: "files (snd (get_attribute sels a w1)) = files w1" using Cons by (simp add: keeps_files_def)
    show "files (snd (get_attribute (s # sels) a w)) = files w"
      using tr w1 rest by (auto split: sum.splits option.splits)
  qed
qed

lemma keeps_files_get_all_attributes: "keeps_files (get_all_attributes s a)"
  unfolding get_all_attributes_def
  by (intro keeps_files_intros keeps_files_find_elements)

lemma keeps_files_extract_social_links: "keeps_files extract_social_links"
  unfolding extract_social_links_def
  by (intro keeps_files_intros keeps_files_find_elements)

lemma keeps_files_extract_rating: "keeps_files extract_rating"
  unfolding extract_rating_def
  by (intro keeps_files_intros keeps_files_get_text)

lemma keeps_files_extract_reviews_count: "keeps_files extract_reviews_count"
  unfolding extract_reviews_count_def
  by (intro keeps_files_intros keeps_files_get_text)

section \<open>Properties of the numeric extraction\<close>

lemma search_int_digits:
  "s \<noteq> [] \<Longrightarrow> \<forall>c \<in> set s. is_digit c \<Longrightarrow> search_int s = Some s"
  by (cases s) (simp_all add: takeWhile_eq_all_conv[THEN iffD2])

lemma search_int_result:
  "search_int s = Some m \<Longrightarrow> m \<noteq> [] \<and> (\<forall>c \<in> set m. is_digit c)"
  by (induction s) (auto split: if_splits dest: set_takeWhileD)

lemma reviews_count_idem: "reviews_count_of_text (reviews_count_of_text s) = reviews_count_of_text s"
proof (cases "search_int s")
  case None
  then show ?thesis by (simp add: reviews_count_of_text_def)
next
  case (Some m)
  from search_int_result[OF Some] have "search_int m = Some m"
    by (intro search_int_digits) auto
  with Some search_int_result[OF Some] show ?thesis
    by (cases s) (auto simp: reviews_count_of_text_def)
qed

lemma not_digit_dot: "\<not> is_digit CHR ''.''"
  by (simp add: is_digit_def)

lemma match_decimal_shape:
  "match_decimal s = takeWhile is_digit s \<or>
   (\<exists>ds2. ds2 \<noteq> [] \<and> (\<forall>c \<in> set ds2. is_digit c) \<and>
      match_decimal s = takeWhile is_digit s @ CHR ''.'' # ds2)"
  by (auto simp: match_decimal_def Let_def split: list.splits dest: set_takeWhileD)

lemma match_decimal_digits:
  "\<forall>c \<in> set ds. is_digit c \<Longrightarrow> match_decimal ds = ds"
  by (simp add: match_decimal_def takeWhile_eq_all_conv[THEN iffD2] dropWhile_eq_Nil_conv[THEN iffD2])

lemma match_decimal_fixed:
  assumes "\<forall>c \<in> set ds. is_digit c" "ds2 \<noteq> []" "\<forall>c \<in> set ds2. is_digit c"
  shows "match_decimal (ds @ CHR ''.'' # ds2) = ds @ CHR ''.'' # ds2"
proof -
  have t: "takeWhile is_digit (ds @ CHR ''.'' # ds2) = ds"
    using assms(1) by (simp add: takeWhile_append2 not_digit_dot)
  have d: "dropWhile is_digit (ds @ CHR ''.'' # ds2) = CHR ''.'' # ds2"
    using assms(1) by (simp add: dropWhile_append2 not_digit_dot)
  have t2: "takeWhile is_digit ds2 = ds2"
    using assms(3) by (simp add: takeWhile_eq_all_conv[THEN iffD2])
  show ?thesis
    using assms(2) by (simp add: match_decimal_def t d t2)
qed

lemma match_decimal_idem:
  "match_decimal (match_decimal s) = match_decimal s"
proof -
  have ds: "\<forall>c \<in> set (takeWhile is_digit s). is_digit c"
    by (auto dest: set_takeWhileD)
  from match_decimal_shape[of s] show ?thesis
  proof
    assume "match_decimal s = takeWhile is_digit s"
    then show ?thesis using match_decimal_digits[OF ds] by simp
  next
    assume "\<exists>ds2. ds2 \<noteq> [] \<and> (\<forall>c \<in> set ds2. is_digit c) \<and>
      match_decimal s = takeWhile is_digit s @ CHR ''.'' # ds2"
    then obtain ds2 where "ds2 \<noteq> []" "\<forall>c \<in> set ds2. is_digit c"
      "match_decimal s = takeWhile is_digit s @ CHR ''.'' # ds2" by blast
    then show ?thesis using match_decimal_fixed[OF ds] by simp
  qed
qed

lemma search_decimal_result:
  "search_decimal s = Some m \<Longrightarrow> \<exists>t. m = match_decimal t \<and> t \<noteq> [] \<and> is_digit (hd t)"
  by (induction s) (auto split: if_splits)

lemma match_decimal_hd:
  "t \<noteq> [] \<Longrightarrow> is_digit (hd t) \<Longrightarrow> match_decimal t \<noteq> [] \<and> is_digit (hd (match_decimal t))"
  using match_decimal_shape[of t] by (cases t) auto

lemma rating_idem: "rating_of_text (rating_of_text s) = rating_of_text s"
proof (cases "search_decimal s")
  case None
  then show ?thesis by (simp add: rating_of_text_def)
next
  case (Some m)
  then obtain t where t: "m = match_decimal t" "t \<noteq> []" "is_digit (hd t)"
    using search_decimal_result by blast
  then have m: "m \<noteq> []" "is_digit (hd m)" using match_decimal_hd by auto
  then have "search_decimal m = Some (match_decimal m)" by (cases m) auto
  then have "search_decimal m = Some m" using t(1) by (simp add: match_decimal_idem)
  with Some m show ?thesis by (cases s) (auto simp: rating_of_text_def)
qed

text \<open>
  Claim C9, amended. Both numeric steps are idempotent on every input, so whatever they
  return is a fixed point, and both map the empty string to the empty string. The rating
  step maps "4.9" and "Rating 4.9" to "4.9". The review-count step keeps the first run of
  digits only: it maps "1611" and "1611 ratings" to "1611", and "4.9" and "Rating 4.9"
  to "4".
\<close>

theorem numeric_extraction_fixed_points:
  "rating_of_text ''4.9'' = ''4.9'' \<and> rating_of_text ''Rating 4.9'' = ''4.9'' \<and>
   rating_of_text [] = [] \<and>
   reviews_count_of_text ''1611'' = ''1611'' \<and> reviews_count_of_text ''1611 ratings'' = ''1611'' \<and>
   reviews_count_of_text ''4.9'' = ''4'' \<and> reviews_count_of_text ''Rating 4.9'' = ''4'' \<and>
   reviews_count_of_text [] = [] \<and>
   (\<forall>s. rating_of_text (rating_of_text s) = rating_of_text s) \<and>
   (\<forall>s. reviews_count_of_text (reviews_count_of_text s) = reviews_count_of_text s)"
proof -
  have "rating_of_text ''4.9'' = ''4.9''" "rating_of_text ''Rating 4.9'' = ''4.9''"
    "rating_of_text [] = []"
    by (simp_all add: rating_of_text_def match_decimal_def is_digit_def)
  moreover have "reviews_count_of_text ''1611'' = ''1611''"
    "reviews_count_of_text ''1611 ratings'' = ''1611''" "reviews_count_of_text [] = []"
    "reviews_count_of_text ''4.9'' = ''4''" "reviews_count_of_text ''Rating 4.9'' = ''4''"
    by (simp_all add: reviews_count_of_text_def is_digit_def)
  ultimately show ?thesis
    using rating_idem reviews_count_idem by blast
qed

text \<open>
  The claim as first stated fails for the review-count step: on the clean decimal "4.9",
  and on "Rating 4.9", it returns "4", not "4.9".
\<close>

theorem count_of_decimal_counterexample:
  "reviews_count_of_text ''4.9'' = ''4'' \<and> reviews_count_of_text ''Rating 4.9'' = ''4'' \<and>
   reviews_count_of_text ''4.9'' \<noteq> ''4.9'' \<and> reviews_count_of_text ''Rating 4.9'' \<noteq> ''4.9''"
  by (simp add: reviews_count_of_text_def is_digit_def)

section \<open>Photo pipeline\<close>

lemma wrote_accepted_refl: "files w' = files w \<Longrightarrow> wrote_accepted st cfg w w'"
  by (simp add: wrote_accepted_def)

lemma wrote_accepted_trans:
  "wrote_accepted st cfg w w1 \<Longrightarrow> wrote_accepted st cfg w1 w2 \<Longrightarrow> wrote_accepted st cfg w w2"
  unfolding wrote_accepted_def holds_accepted_def by metis

lemma holds_accepted_later:
  "holds_accepted st cfg w1 p \<Longrightarrow> wrote_accepted st cfg w1 w2 \<Longrightarrow> holds_accepted st cfg w2 p"
  unfolding wrote_accepted_def holds_accepted_def by metis

lemma write_file_accepted:
  assumes "accepted_content st cfg c" "write_file st path c w = (r, w')"
  shows "wrote_accepted st cfg w w' \<and> (r = Inr () \<longrightarrow> holds_accepted st cfg w' path)"
  using assms
  by (auto simp: write_file_def wrote_accepted_def holds_accepted_def split: option.splits)

lemma save_accepted:
  assumes "accepted_content st cfg c"
    and "bnd (write_file st path c) (\<lambda>_. ret (Some path)) w = (r, w')"
  shows "wrote_accepted st cfg w w' \<and> (\<forall>q. r = Inr (Some q) \<longrightarrow> q = path \<and> holds_accepted st cfg w' q)
         \<and> r \<noteq> Inr None"
proof (cases "write_file st path c w")
  case (Pair r1 w1)
  from write_file_accepted[OF assms(1) Pair] assms(2) Pair show ?thesis
    by (cases r1) (auto simp: bnd_def ret_def)
qed

lemma download_photo_accepted:
  assumes "download_photo st cfg folder i src w = (r, w')"
  shows "wrote_accepted st cfg w w' \<and>
         (\<forall>q. r = Inr (Some q) \<longrightarrow>
            holds_accepted st cfg w' q \<and> (\<exists>ext. q = photo_path folder (i + 1) ext))"
proof (cases "http_get st (session_cookies w) src")
  case (Inl e)
  with assms show ?thesis
    by (auto simp: download_photo_def session_get_def bnd_def wrote_accepted_def)
next
  case (Inr resp)
  obtain status_code content where resp: "resp = (status_code, content)" by (cases resp)
  show ?thesis
  proof (cases "status_code = 200 \<and> 1000 < length content")
    case False
    with assms Inr resp show ?thesis
      by (auto simp: download_photo_def session_get_def bnd_def ret_def wrote_accepted_def)
  next
    case True
    then have raw: "accepted_content st cfg content"
      using Inr resp unfolding accepted_content_def by blast
    show ?thesis
    proof (cases "needs_conversion cfg")
      case False
      with assms Inr resp True
      have "bnd (write_file st (photo_path folder (i + 1) ''jpg'') content)
              (\<lambda>_. ret (Some (photo_path folder (i + 1) ''jpg''))) w = (r, w')"
        by (simp add: download_photo_def session_get_def bnd_def)
      from save_accepted[OF raw this] show ?thesis by blast
    next
      case fmt: True
      let ?conv = "bnd (lift (image_convert st (upper (photo_format cfg)) content)) (\<lambda>encoded.
              bnd (write_file st (photo_path folder (i + 1) (photo_format cfg)) encoded) (\<lambda>_.
              ret (Some (photo_path folder (i + 1) (photo_format cfg)))))"
      let ?fallback = "bnd (write_file st (photo_path folder (i + 1) ''jpg'') content) (\<lambda>_.
              ret (Some (photo_path folder (i + 1) ''jpg'')))"
      from assms Inr resp True fmt
      have te: "try_except ?conv (\<lambda>conversion_error. ?fallback) w = (r, w')"
        by (simp add: download_photo_def session_get_def bnd_def)
      obtain r1 w1 where c1: "?conv w = (r1, w1)" by (cases "?conv w")
      have conv_ok: "wrote_accepted st cfg w w1 \<and>
          (\<forall>q. r1 = Inr (Some q) \<longrightarrow> q = photo_path folder (i + 1) (photo_format cfg) \<and>
                 holds_accepted st cfg w1 q) \<and> r1 \<noteq> Inr None"
      proof (cases "image_convert st (upper (photo_format cfg)) content")
        case (Inl e)
        with c1 show ?thesis by (auto simp: bnd_def lift_def wrote_accepted_def)
      next
        case (Inr encoded)
        have enc: "accepted_content st cfg encoded"
          using Inr True fmt \<open>http_get st (session_cookies w) src = Inr resp\<close> resp
          unfolding accepted_content_def by blast
        from c1 Inr have "bnd (write_file st (photo_path folder (i + 1) (photo_format cfg)) encoded)
             (\<lambda>_. ret (Some (photo_path folder (i + 1) (photo_format cfg)))) w = (r1, w1)"
          by (simp add: bnd_def lift_def)
        from save_accepted[OF enc this] show ?thesis by blast
      qed
      show ?thesis
      proof (cases r1)
        case (Inr x)
        with te c1 have "r = r1" "w' = w1" by (auto simp: try_except_def)
        with conv_ok show ?thesis by blast
      next
        case (Inl e)
        with te c1 have fb: "?fallback w1 = (r, w')" by (auto simp: try_except_def)
        from save_accepted[OF raw fb] conv_ok show ?thesis
          using wrote_accepted_trans by blast
      qed
    qed
  qed
qed

lemma photo_step_accepted:
  assumes "photo_step st cfg folder i img w = (r, w')"
  shows "wrote_accepted st cfg w w' \<and>
         (\<forall>q. r = Inr (Some q) \<longrightarrow>
            holds_accepted st cfg w' q \<and> (\<exists>ext. q = photo_path folder (i + 1) ext))"
proof -
  show ?thesis
  proof (cases "el_attr img ''src''")
    case (Inl e)
    with assms show ?thesis by (auto simp: photo_step_def bnd_def lift_def wrote_accepted_def)
  next
    case src0: (Inr src0)
    show ?thesis
    proof (cases "el_attr img ''srcset''")
      case (Inl e)
      with assms src0 show ?thesis by (auto simp: photo_step_def bnd_def lift_def wrote_accepted_def)
    next
      case srcset: (Inr srcset)
      show ?thesis
      proof (cases "resolve_src src0 srcset")
        case None
        with assms src0 srcset show ?thesis
          by (auto simp: photo_step_def bnd_def lift_def ret_def wrote_accepted_def)
      next
        case (Some src)
        show ?thesis
        proof (cases "src = [] \<or> skip_non_image src")
          case True
          then have "(if src = [] then ret None
                      else if skip_non_image src then ret None
                      else try_except (download_photo st cfg folder i (upgrade_src src))
                             (\<lambda>e. ret None)) = (ret None :: string option act)"
            by auto
          with assms src0 srcset Some show ?thesis
            by (auto simp: photo_step_def bnd_def lift_def ret_def wrote_accepted_def)
        next
          case False
          with assms src0 srcset Some
          have te: "try_except (download_photo st cfg folder i (upgrade_src src)) (\<lambda>e. ret None) w = (r, w')"
            by (auto simp: photo_step_def bnd_def lift_def)
          obtain r1 w1 where d: "download_photo st cfg folder i (upgrade_src src) w = (r1, w1)"
            by (cases "download_photo st cfg folder i (upgrade_src src) w")
          from te d have "w' = w1" "r = r1 \<or> r = Inr None"
            by (auto simp: try_except_def ret_def split: sum.splits)
          with download_photo_accepted[OF d] show ?thesis by auto
        qed
      qed
    qed
  qed
qed

lemma photos_loop_accepted:
  "photos_loop st cfg folder imgs i w = (r, w') \<Longrightarrow>
   wrote_accepted st cfg w w' \<and>
   (\<exists>ps. r = Inr ps \<and> length ps \<le> length imgs \<and> (\<forall>p \<in> set ps. holds_accepted st cfg w' p))"
proof (induction imgs arbitrary: i w r w')
  case Nil
  then show ?case by (auto simp: ret_def wrote_accepted_def)
next
  case (Cons img imgs)
  obtain r1 w1 where s: "photo_step st cfg folder i img w = (r1, w1)"
    by (cases "photo_step st cfg folder i img w")
  note step = photo_step_accepted[OF s]
  show ?case
  proof (cases r1)
    case (Inl e)
    with Cons.prems s have "r = Inr []" "w' = w1" by auto
    with step show ?thesis by auto
  next
    case (Inr p)
    obtain r2 w2 where l: "photos_loop st cfg folder imgs (Suc i) w1 = (r2, w2)"
      by (cases "photos_loop st cfg folder imgs (Suc i) w1")
    from Cons.IH[OF l] obtain ps where ih: "wrote_accepted st cfg w1 w2" "r2 = Inr ps"
      "length ps \<le> length imgs" "\<forall>p \<in> set ps. holds_accepted st cfg w2 p" by blast
    from Cons.prems s Inr l ih(2)
    have res: "r = Inr ((case p of None \<Rightarrow> [] | Some path \<Rightarrow> [path]) @ ps)" "w' = w2"
      by (auto simp: bnd_def ret_def)
    have "wrote_accepted st cfg w w'"
      using step ih(1) res(2) wrote_accepted_trans by blast
    moreover have "\<forall>q \<in> set ((case p of None \<Rightarrow> [] | Some path \<Rightarrow> [path]) @ ps). holds_accepted st cfg w' q"
      using step Inr ih(1,4) res(2) holds_accepted_later by (cases p) auto
    moreover have "length ((case p of None \<Rightarrow> [] | Some path \<Rightarrow> [path]) @ ps) \<le> length (img # imgs)"
      using ih(3) by (cases p) auto
    ultimately show ?thesis using res(1) by blast
  qed
qed

lemma keeps_files_transfer_cookies: "keeps_files transfer_cookies"
  unfolding transfer_cookies_def
  by (intro keeps_files_bnd keeps_files_with_driver) (simp add: keeps_files_def)

lemma slice_to_length: "0 \<le> n \<Longrightarrow> int (length (slice_to n xs)) \<le> n"
  by (simp add: slice_to_def)

lemma extract_photos_accepted:
  assumes "extract_photos st cfg folder w = (r, w')"
  shows "wrote_accepted st cfg w w' \<and>
     (\<exists>ps. r = Inr ps \<and> (0 \<le> max_photos cfg \<longrightarrow> int (length ps) \<le> max_photos cfg) \<and>
        (\<forall>p \<in> set ps. holds_accepted st cfg w' p))"
proof -
  obtain r1 w1 where t: "transfer_cookies w = (r1, w1)" by (cases "transfer_cookies w")
  have f1: "files w1 = files w" using keeps_filesD[OF keeps_files_transfer_cookies t] .
  show ?thesis
  proof (cases r1)
    case (Inl e)
    with assms t f1 show ?thesis
      by (auto simp: extract_photos_def try_except_def bnd_def ret_def wrote_accepted_def)
  next
    case (Inr u)
    obtain r2 w2 where fe: "find_elements gallery_images_selector w1 = (r2, w2)"
      by (cases "find_elements gallery_images_selector w1")
    have f2: "files w2 = files w" using keeps_filesD[OF keeps_files_find_elements fe] f1 by simp
    show ?thesis
    proof (cases r2)
      case (Inl e)
      with assms t Inr fe f2 show ?thesis
        by (auto simp: extract_photos_def try_except_def bnd_def ret_def wrote_accepted_def)
    next
      case imgs: (Inr imgs)
      obtain r3 w3 where l: "photos_loop st cfg folder (slice_to (max_photos cfg) imgs) 0 w2 = (r3, w3)"
        by (cases "photos_loop st cfg folder (slice_to (max_photos cfg) imgs) 0 w2")
      from photos_loop_accepted[OF l] obtain ps where ps: "wrote_accepted st cfg w2 w3" "r3 = Inr ps"
        "length ps \<le> length (slice_to (max_photos cfg) imgs)" "\<forall>p \<in> set ps. holds_accepted st cfg w3 p"
        by blast
      from assms t Inr fe imgs l ps(2) have res: "r = Inr ps" "w' = w3"
        by (auto simp: extract_photos_def try_except_def bnd_def)
      have "wrote_accepted st cfg w w'"
        using ps(1) f2 res(2) by (simp add: wrote_accepted_def)
      moreover have "0 \<le> max_photos cfg \<longrightarrow> int (length ps) \<le> max_photos cfg"
        using ps(3) slice_to_length[of "max_photos cfg" imgs] by auto
      ultimately show ?thesis using res ps(4) by blast
    qed
  qed
qed



lemma photos_loop_length:
  "photos_loop st cfg folder imgs i w = (Inr ps, w') \<Longrightarrow> length ps \<le> length imgs"
  using photos_loop_accepted[of st cfg folder imgs i w "Inr ps" w'] by auto

lemma numbered_Nil: "numbered i [] = []"
  by (simp add: numbered_def map_filter_simps)

lemma numbered_None: "numbered i (None # os) = numbered (Suc i) os"
  by (simp add: numbered_def map_filter_simps)

lemma numbered_Some: "numbered i (Some e # os) = (Suc i, e) # numbered (Suc i) os"
  by (simp add: numbered_def map_filter_simps)

lemmas numbered_simps = numbered_Nil numbered_None numbered_Some



lemma numbered_length: "length (numbered i os) \<le> length os"
proof (induction os arbitrary: i)
  case Nil
  then show ?case by (simp add: numbered_simps)
next
  case (Cons a os)
  then show ?case by (cases a) (auto simp: numbered_simps le_SucI)
qed



section \<open>Reviews\<close>

lemma parse_review_valid:
  "parse_review item = Some r \<Longrightarrow> r_rating r \<noteq> [] \<and> (r_text r \<noteq> [] \<or> r_author r \<noteq> [])"
  by (auto simp: parse_review_def Let_def split: if_splits)

lemma parse_reviews_valid:
  "r \<in> set (parse_reviews items) \<Longrightarrow> r_rating r \<noteq> [] \<and> (r_text r \<noteq> [] \<or> r_author r \<noteq> [])"
  by (induction items) (auto split: option.splits dest: parse_review_valid)

lemma parse_reviews_length: "length (parse_reviews items) \<le> length items"
  by (induction items) (auto split: option.splits)

lemma extract_reviews_valid:
  assumes "extract_reviews st w = (Inr rs, w')"
  shows "length rs \<le> 5 \<and> (\<forall>r \<in> set rs. r_rating r \<noteq> [] \<and> (r_text r \<noteq> [] \<or> r_author r \<noteq> []))"
proof -
  from assms have "rs = [] \<or> (\<exists>items. rs = parse_reviews (take 5 items))"
    unfolding extract_reviews_def
    by (auto dest!: try_except_ret_Inr elim!: bnd_InrE simp: ret_eq split: if_splits)
  then show ?thesis
  proof
    assume "rs = []" then show ?thesis by simp
  next
    assume "\<exists>items. rs = parse_reviews (take 5 items)"
    then obtain items where rs: "rs = parse_reviews (take 5 items)" by blast
    have "length rs \<le> length (take 5 items)" unfolding rs by (rule parse_reviews_length)
    then have "length rs \<le> 5" by simp
    then show ?thesis using parse_reviews_valid rs by blast
  qed
qed

lemma extract_reviews_never_raises: "never_raises (extract_reviews st)"
  unfolding never_raises_def extract_reviews_def try_except_def ret_def
  by (auto split: prod.splits sum.splits)

section \<open>Frame lemmas for the steps of a listing\<close>

lemma keeps_files_case_option:
  "keeps_files a \<Longrightarrow> (\<And>c. keeps_files (b c)) \<Longrightarrow> keeps_files (case x of None \<Rightarrow> a | Some c \<Rightarrow> b c)"
  by (cases x) simp_all

lemma keeps_files_switch_overview_loop: "keeps_files (switch_overview_loop st tabs)"
  by (induction tabs)
     (auto intro!: keeps_files_intros keeps_files_case_option keeps_files_execute_script)

lemma keeps_files_switch_to_overview: "keeps_files (switch_to_overview st)"
  unfolding switch_to_overview_def
  by (intro keeps_files_intros keeps_files_find_elements keeps_files_switch_overview_loop)

lemma keeps_files_click_reviews_tab: "keeps_files (click_reviews_tab st tabs)"
  by (induction tabs)
     (auto intro!: keeps_files_intros keeps_files_case_option keeps_files_execute_script)

lemma keeps_files_extract_reviews: "keeps_files (extract_reviews st)"
  unfolding extract_reviews_def
  by (intro keeps_files_intros keeps_files_find_elements keeps_files_click_reviews_tab
        keeps_files_execute_script)

lemma keeps_files_scrape_listing_reviews: "keeps_files (scrape_listing_reviews st cfg)"
  by (simp add: scrape_listing_reviews_def keeps_files_extract_reviews keeps_files_ret)

lemma keeps_files_extract_features: "keeps_files extract_features"
  unfolding keeps_files_def extract_features_def find_elements_def with_driver_def
  by (auto split: option.splits sum.splits prod.splits)

lemma keeps_files_extract_address: "keeps_files extract_address"
  unfolding extract_address_def
  by (intro keeps_files_intros keeps_files_get_text keeps_files_get_attribute)

lemma keeps_files_extract_website: "keeps_files extract_website"
  unfolding extract_website_def
  by (intro keeps_files_intros keeps_files_get_text keeps_files_get_attribute)

lemma keeps_files_extract_phone: "keeps_files extract_phone"
  unfolding extract_phone_def by (rule keeps_files_get_text)

lemma keeps_files_extract_working_hours: "keeps_files extract_working_hours"
  unfolding extract_working_hours_def
  by (intro keeps_files_intros keeps_files_get_text keeps_files_get_all_attributes)

lemma keeps_files_back_to_overview: "keeps_files (back_to_overview st)"
  unfolding back_to_overview_def
  by (intro keeps_files_intros keeps_files_get_current_url keeps_files_driver_get
        keeps_files_switch_to_overview keeps_files_execute_script)

lemma scrape_listing_photos_accepted:
  assumes "scrape_listing_photos st cfg folder w = (Inr ps, w')"
  shows "(0 \<le> max_photos cfg \<longrightarrow> int (length ps) \<le> max_photos cfg) \<and>
         (\<forall>p \<in> set ps. holds_accepted st cfg w' p)"
proof (cases "scrape_photos cfg")
  case False
  with assms show ?thesis by (simp add: scrape_listing_photos_def ret_eq)
next
  case True
  with assms have "bnd (open_gallery st) (\<lambda>_.
        bnd (extract_photos st cfg folder) (\<lambda>photos.
        bnd (back_to_overview st) (\<lambda>_. ret photos))) w = (Inr ps, w')"
    by (simp add: scrape_listing_photos_def)
  then obtain u1 w1 where r1: "bnd (extract_photos st cfg folder) (\<lambda>photos.
        bnd (back_to_overview st) (\<lambda>_. ret photos)) w1 = (Inr ps, w')"
    by (rule bnd_InrE)
  from r1 obtain photos w2 where ep0: "extract_photos st cfg folder w1 = (Inr photos, w2)"
    and r2: "bnd (back_to_overview st) (\<lambda>_. ret photos) w2 = (Inr ps, w')"
    by (rule bnd_InrE)
  from r2 obtain u w3 where bk0: "back_to_overview st w2 = (Inr u, w3)"
    and r3: "ret photos w3 = (Inr ps, w')"
    by (rule bnd_InrE)
  from r3 have "photos = ps" "w3 = w'" by (simp_all add: ret_eq)
  with ep0 bk0 have ep: "extract_photos st cfg folder w1 = (Inr ps, w2)"
    and bk: "back_to_overview st w2 = (Inr u, w')" by simp_all
  from keeps_filesD[OF keeps_files_back_to_overview bk] have "files w' = files w2" .
  with extract_photos_accepted[OF ep] show ?thesis
    by (auto simp: holds_accepted_def)
qed

lemma extract_fields_steps:
  assumes "extract_fields st cfg index query w = (Inr (Some rec), w')"
  shows "\<exists>wa wb f wc a wd ws we ph wf wh wg sm wi rt wj rc wk lk wl.
     scrape_listing_photos st cfg (p_folder_path rec) wa = (Inr (p_photos rec), wb) \<and>
     extract_features wb = (Inr f, wc) \<and>
     extract_address wc = (Inr a, wd) \<and>
     extract_website wd = (Inr ws, we) \<and>
     extract_phone we = (Inr ph, wf) \<and>
     extract_working_hours wf = (Inr wh, wg) \<and>
     extract_social_links wg = (Inr sm, wi) \<and>
     extract_rating wi = (Inr rt, wj) \<and>
     extract_reviews_count wj = (Inr rc, wk) \<and>
     get_current_url wk = (Inr lk, wl) \<and>
     scrape_listing_reviews st cfg wl = (Inr (p_reviews rec), w')"
  using assms unfolding extract_fields_def
  apply (elim bnd_InrE)
  apply (clarsimp simp: ret_eq)
  apply (intro exI conjI)
            apply assumption+
  done

lemma extract_fields_parts:
  assumes "extract_fields st cfg index query w = (Inr (Some rec), w')"
  shows "\<exists>w1 w2 w3.
     scrape_listing_photos st cfg (p_folder_path rec) w1 = (Inr (p_photos rec), w2) \<and>
     files w' = files w2 \<and>
     scrape_listing_reviews st cfg w3 = (Inr (p_reviews rec), w')"
proof -
  from extract_fields_steps[OF assms]
  obtain wa wb f wc a wd ws we ph wf wh wg sm wi rt wj rc wk lk wl where
    s1: "scrape_listing_photos st cfg (p_folder_path rec) wa = (Inr (p_photos rec), wb)" and
    s2: "extract_features wb = (Inr f, wc)" and
    s3: "extract_address wc = (Inr a, wd)" and
    s4: "extract_website wd = (Inr ws, we)" and
    s5: "extract_phone we = (Inr ph, wf)" and
    s6: "extract_working_hours wf = (Inr wh, wg)" and
    s7: "extract_social_links wg = (Inr sm, wi)" and
    s8: "extract_rating wi = (Inr rt, wj)" and
    s9: "extract_reviews_count wj = (Inr rc, wk)" and
    s10: "get_current_url wk = (Inr lk, wl)" and
    s11: "scrape_listing_reviews st cfg wl = (Inr (p_reviews rec), w')"
    by (elim exE conjE)
  have "files w' = files wl" by (rule keeps_filesD[OF keeps_files_scrape_listing_reviews s11])
  also have "\<dots> = files wk" by (rule keeps_filesD[OF keeps_files_get_current_url s10])
  also have "\<dots> = files wj" by (rule keeps_filesD[OF keeps_files_extract_reviews_count s9])
  also have "\<dots> = files wi" by (rule keeps_filesD[OF keeps_files_extract_rating s8])
  also have "\<dots> = files wg" by (rule keeps_filesD[OF keeps_files_extract_social_links s7])
  also have "\<dots> = files wf" by (rule keeps_filesD[OF keeps_files_extract_working_hours s6])
  also have "\<dots> = files we" by (rule keeps_filesD[OF keeps_files_extract_phone s5])
  also have "\<dots> = files wd" by (rule keeps_filesD[OF keeps_files_extract_website s4])
  also have "\<dots> = files wc" by (rule keeps_filesD[OF keeps_files_extract_address s3])
  also have "\<dots> = files wb" by (rule keeps_filesD[OF keeps_files_extract_features s2])
  finally have "files w' = files wb" .
  with s1 s11 show ?thesis by blast
qed

lemma extract_details_fields:
  assumes "extract_details st cfg index query w = (Inr (Some rec), w')"
  shows "\<exists>w0. extract_fields st cfg index query w0 = (Inr (Some rec), w')"
proof -
  from assms have "extract_details_body st cfg index query w = (Inr (Some rec), w')"
    unfolding extract_details_def handle_errors_def by (auto dest: try_except_ret_Inr)
  then show ?thesis
    unfolding extract_details_body_def
    by (auto elim!: bnd_InrE simp: ret_eq split: if_splits)
qed

text \<open>
  Claim C3. Every record that \<^verbatim>\<open>_extract_details\<close> returns has at most five reviews,
  and each of them has a rating and a text or an author; parsing the reviews never raises,
  so a review that fails the test is dropped without an error.
\<close>

theorem reviews_capped_and_valid:
  assumes "extract_details st cfg index query w = (Inr (Some rec), w')"
  shows "length (p_reviews rec) \<le> 5 \<and>
         (\<forall>r \<in> set (p_reviews rec). r_rating r \<noteq> [] \<and> (r_text r \<noteq> [] \<or> r_author r \<noteq> [])) \<and>
         never_raises (extract_reviews st)"
proof -
  from extract_details_fields[OF assms] obtain w0 where
    "extract_fields st cfg index query w0 = (Inr (Some rec), w')" by blast
  from extract_fields_parts[OF this] obtain w3 where
    "scrape_listing_reviews st cfg w3 = (Inr (p_reviews rec), w')" by blast
  then have "p_reviews rec = [] \<or> extract_reviews st w3 = (Inr (p_reviews rec), w')"
    by (auto simp: scrape_listing_reviews_def ret_eq split: if_splits)
  then have "length (p_reviews rec) \<le> 5 \<and>
         (\<forall>r \<in> set (p_reviews rec). r_rating r \<noteq> [] \<and> (r_text r \<noteq> [] \<or> r_author r \<noteq> []))"
    using extract_reviews_valid by fastforce
  then show ?thesis using extract_reviews_never_raises by blast
qed

text \<open>
  Claim C4, amended. With a cap of at least zero, every record has at most
  \<^verbatim>\<open>max_photos\<close> photo paths. A path is recorded only for a response with status 200
  and more than 1000 bytes, and the file at the path then holds that payload, or, when the
  format is \<^verbatim>\<open>webp\<close> or \<^verbatim>\<open>png\<close>, the re-encoded image, whose size is not checked.
  When no conversion is configured every recorded file holds more than 1000 bytes.
\<close>

theorem photos_capped_and_accepted:
  assumes "0 \<le> max_photos cfg"
    and "extract_details st cfg index query w = (Inr (Some rec), w')"
  shows "int (length (p_photos rec)) \<le> max_photos cfg \<and>
         (\<forall>p \<in> set (p_photos rec). holds_accepted st cfg w' p) \<and>
         (\<not> needs_conversion cfg \<longrightarrow>
            (\<forall>p \<in> set (p_photos rec). \<exists>c. files w' p = Some c \<and> 1000 < length c))"
proof -
  from extract_details_fields[OF assms(2)] obtain w0 where
    "extract_fields st cfg index query w0 = (Inr (Some rec), w')" by blast
  from extract_fields_parts[OF this] obtain w1 w2 where
    sl: "scrape_listing_photos st cfg (p_folder_path rec) w1 = (Inr (p_photos rec), w2)"
    and f: "files w' = files w2" by blast
  from scrape_listing_photos_accepted[OF sl] assms(1) f
  have a: "int (length (p_photos rec)) \<le> max_photos cfg"
    and b: "\<forall>p \<in> set (p_photos rec). holds_accepted st cfg w' p"
    by (auto simp: holds_accepted_def)
  have "\<not> needs_conversion cfg \<longrightarrow>
            (\<forall>p \<in> set (p_photos rec). \<exists>c. files w' p = Some c \<and> 1000 < length c)"
    using b unfolding holds_accepted_def accepted_content_def by blast
  with a b show ?thesis by blast
qed



section \<open>Listing discovery\<close>

lemma add_link_distinct: "distinct links \<Longrightarrow> distinct (add_link href links)"
  by (simp add: add_link_def)

lemma collect_links_distinct: "distinct links \<Longrightarrow> distinct (collect_links els links)"
  by (induction els arbitrary: links) (auto simp: add_link_distinct split: option.splits)

lemma slice_to_distinct: "distinct xs \<Longrightarrow> distinct (slice_to n xs)"
  by (simp add: slice_to_def)

lemma slice_to_pos_length: "0 < n \<Longrightarrow> length (slice_to n xs) = min (nat n) (length xs)"
  by (simp add: slice_to_def)

text \<open>The invariant of the loop, at the head of an iteration.\<close>

lemma drop_snoc_le: "n \<le> length xs \<Longrightarrow> drop n (xs @ [x]) = drop n xs @ [x]"
  by simp

lemma scroll_loop_result:
  assumes "0 < max_results cfg"
    and "scroll_loop st cfg fuel last_count attempts links seen w = Some (Inr (ls, reason, seen'), w')"
    and "distinct links" and "attempts \<le> 4" and "attempts \<le> length seen"
    and "last (0 # seen) = last_count"
    and "drop (length seen - attempts) (0 # seen) = replicate (Suc attempts) last_count"
  shows "length ls \<le> nat (max_results cfg) \<and> distinct ls \<and>
         (reason = TargetReached \<longrightarrow> int (length ls) = max_results cfg) \<and>
         (reason = Stalled \<longrightarrow> five_stalls seen')"
  using assms(2-)
proof (induction fuel arbitrary: last_count attempts links seen w)
  case 0
  then show ?case by simp
next
  case (Suc fuel)
  obtain r1 w1 where fe: "find_elements ''.search-snippet-view'' w = (r1, w1)"
    by (cases "find_elements ''.search-snippet-view'' w")
  show ?case
  proof (cases r1)
    case (Inl e)
    with Suc.prems(1) fe show ?thesis by simp
  next
    case (Inr elements)
    let ?cur = "length elements"
    let ?links1 = "collect_links elements links"
    let ?seen1 = "seen @ [?cur]"
    let ?res = "slice_to (max_results cfg) ?links1"
    have d1: "distinct ?links1" using Suc.prems(2) by (rule collect_links_distinct)
    have dres: "distinct ?res" using d1 by (rule slice_to_distinct)
    have lres: "length ?res \<le> nat (max_results cfg)"
      using assms(1) by (simp add: slice_to_pos_length)
    let ?att1 = "if ?cur = last_count then attempts + 1 else 0"
    from Suc.prems(1) have eq:
      "(if max_results cfg \<le> int (length ?links1) then
          Some (Inr (?res, TargetReached, ?seen1), w1)
        else if ?cur = last_count \<and> 5 \<le> attempts + 1 then
          Some (Inr (?res, Stalled, ?seen1), w1)
        else if elements \<noteq> [] then
          (case execute_script st ''arguments[0].scrollIntoView(true);''
                  (Some (last elements)) w1 of
             (Inl e, w2) \<Rightarrow> Some (Inr (?res, ScrollFailed, ?seen1), w2)
           | (Inr u, w2) \<Rightarrow> scroll_loop st cfg fuel ?cur ?att1 ?links1 ?seen1 w2)
        else scroll_loop st cfg fuel ?cur ?att1 ?links1 ?seen1 w1)
       = Some (Inr (ls, reason, seen'), w')"
      by (simp only: scroll_loop.simps fe Inr prod.case sum.case Let_def)
    show ?thesis
    proof (cases "max_results cfg \<le> int (length ?links1)")
      case True
      from eq[unfolded if_P[OF True]] have "Some (Inr (?res, TargetReached, ?seen1) :: exn + _, w1) = Some (Inr (ls, reason, seen'), w')"
        .
      then have "ls = ?res" "reason = TargetReached" by simp_all
      moreover have "int (length ?res) = max_results cfg"
        using True assms(1) by (simp add: slice_to_pos_length)
      ultimately show ?thesis using dres lres by simp
    next
      case notfull: False
      show ?thesis
      proof (cases "?cur = last_count \<and> 5 \<le> attempts + 1")
        case True
        from eq[unfolded if_not_P[OF notfull] if_P[OF True]] have "Some (Inr (?res, Stalled, ?seen1) :: exn + _, w1) = Some (Inr (ls, reason, seen'), w')"
          .
        then have r: "ls = ?res" "reason = Stalled" "seen' = ?seen1" by simp_all
        from True Suc.prems(3) have a4: "attempts = 4" by simp
        have len: "5 \<le> length ?seen1" using Suc.prems(4) a4 by simp
        have "drop (length ?seen1 - 5) (0 # ?seen1) = drop (length seen - 4) ((0 # seen) @ [?cur])"
          by simp
        also have "\<dots> = drop (length seen - 4) (0 # seen) @ [?cur]"
          by (rule drop_snoc_le) simp
        also have "\<dots> = replicate 5 last_count @ [?cur]"
          using Suc.prems(6) a4 by (simp add: eval_nat_numeral)
        also have "\<dots> = replicate 6 ?cur"
          using True by (simp add: eval_nat_numeral replicate_append_same)
        finally have "drop (length ?seen1 - 5) (0 # ?seen1) = replicate 6 (last (0 # ?seen1))"
          by simp
        with len have "five_stalls ?seen1" by (simp add: five_stalls_def)
        with r dres lres show ?thesis by simp
      next
        case cont: False
        have att4: "?att1 \<le> 4" using cont Suc.prems(3) by auto
        have attlen: "?att1 \<le> length ?seen1" using Suc.prems(4) by auto
        have lst: "last (0 # ?seen1) = ?cur" by simp
        have inv: "drop (length ?seen1 - ?att1) (0 # ?seen1) = replicate (Suc ?att1) ?cur"
        proof (cases "?cur = last_count")
          case True
          have "drop (length ?seen1 - (attempts + 1)) (0 # ?seen1)
                = drop (length seen - attempts) ((0 # seen) @ [?cur])" by simp
          also have "\<dots> = drop (length seen - attempts) (0 # seen) @ [?cur]"
            by (rule drop_snoc_le) simp
          also have "\<dots> = replicate (Suc attempts) last_count @ [?cur]"
            using Suc.prems(6) by simp
          also have "\<dots> = replicate (Suc (attempts + 1)) ?cur"
            using True by (simp add: replicate_append_same)
          finally show ?thesis using True by simp
        next
          case False
          then show ?thesis by simp
        qed
        have step: "\<And>w2. scroll_loop st cfg fuel ?cur ?att1 ?links1 ?seen1 w2
                      = Some (Inr (ls, reason, seen'), w') \<Longrightarrow> ?thesis"
          using Suc.IH[OF _ d1 att4 attlen lst inv] by blast
        show ?thesis
        proof (cases "elements \<noteq> []")
          case False
          from eq[unfolded if_not_P[OF notfull] if_not_P[OF cont] if_not_P[OF False]]
          have "scroll_loop st cfg fuel ?cur ?att1 ?links1 ?seen1 w1 = Some (Inr (ls, reason, seen'), w')"
            .
          then show ?thesis by (rule step)
        next
          case nonempty: True
          obtain r2 w2 where sc: "execute_script st ''arguments[0].scrollIntoView(true);''
                      (Some (last elements)) w1 = (r2, w2)"
            by (cases "execute_script st ''arguments[0].scrollIntoView(true);''
                      (Some (last elements)) w1")
          show ?thesis
          proof (cases r2)
            case (Inl e)
            from eq[unfolded if_not_P[OF notfull] if_not_P[OF cont] if_P[OF nonempty] sc Inl prod.case sum.case] have "Some (Inr (?res, ScrollFailed, ?seen1) :: exn + _, w2) = Some (Inr (ls, reason, seen'), w')"
              .
            then have "ls = ?res" "reason = ScrollFailed" by simp_all
            with dres lres show ?thesis by simp
          next
            case (Inr u)
            from eq[unfolded if_not_P[OF notfull] if_not_P[OF cont] if_P[OF nonempty] sc Inr prod.case sum.case]
            have "scroll_loop st cfg fuel ?cur ?att1 ?links1 ?seen1 w2 = Some (Inr (ls, reason, seen'), w')"
              .
            then show ?thesis by (rule step)
          qed
        qed
      qed
    qed
  qed
qed

text \<open>
  Claim C2, amended. For \<^verbatim>\<open>max_results = N > 0\<close>, when the discovery loop returns, it
  returns at most \<open>N\<close> links, without repetition. When it returns fewer than \<open>N\<close>,
  either it stopped at a stall, the last five iterations each having seen as many
  snippets as the iteration before, or scrolling the last snippet into view raised, which
  ends the loop at once.
\<close>

theorem discovery_bound_and_stall:
  assumes "0 < max_results cfg"
    and "scroll_trace st cfg fuel w = Some (Inr (links, reason, seen), w')"
  shows "scroll_and_collect_results st cfg fuel w = Some (Inr links, w') \<and>
         int (length links) \<le> max_results cfg \<and> distinct links \<and>
         (int (length links) < max_results cfg \<longrightarrow>
            (reason = Stalled \<and> five_stalls seen) \<or> reason = ScrollFailed)"
proof -
  from assms(2) have l: "scroll_loop st cfg fuel 0 0 [] [] w = Some (Inr (links, reason, seen), w')"
    by (simp add: scroll_trace_def)
  have r: "length links \<le> nat (max_results cfg) \<and> distinct links \<and>
         (reason = TargetReached \<longrightarrow> int (length links) = max_results cfg) \<and>
         (reason = Stalled \<longrightarrow> five_stalls seen)"
    by (rule scroll_loop_result[OF assms(1) l]) simp_all
  have "scroll_and_collect_results st cfg fuel w = Some (Inr links, w')"
    using assms(2) by (simp add: scroll_and_collect_results_def)
  moreover have "int (length links) \<le> max_results cfg" using r assms(1) by linarith
  moreover have "int (length links) < max_results cfg \<longrightarrow>
            (reason = Stalled \<and> five_stalls seen) \<or> reason = ScrollFailed"
    using r by (cases reason) auto
  ultimately show ?thesis using r by blast
qed

section \<open>Exports\<close>

lemma save_json_effect: "save_json st data w = export_effect st data Json (LogInfo ''JSON saved'') w"
  by (simp add: save_json_def export_effect_def export_attempted_def export_content_def
        export_path_def export_error_def log_execution_def try_except_def bnd_def ret_def
        lift_def open_and_write_def log_msg_def raise_def Let_def json_dump_def
      split: sum.splits option.splits serialised.splits)

lemma export_to_csv_effect:
  "export_to_csv st data w = export_effect st data Csv (LogInfo ''CSV exported'') w"
  by (simp add: export_to_csv_def export_effect_def export_attempted_def export_content_def
        export_path_def export_error_def log_execution_def try_except_def bnd_def ret_def
        lift_def open_and_write_def log_msg_def raise_def Let_def json_dump_def
      split: sum.splits option.splits serialised.splits)

lemma save_to_sqlite_effect:
  "save_to_sqlite st data w = export_effect st data Sqlite (LogInfo ''SQLite saved'') w"
  by (simp add: save_to_sqlite_def export_effect_def export_attempted_def export_content_def
        export_path_def export_error_def log_execution_def try_except_def bnd_def ret_def
        lift_def open_and_write_def log_msg_def raise_def Let_def json_dump_def
      split: sum.splits option.splits serialised.splits)

lemma export_to_excel_effect:
  "export_to_excel st data w = export_effect st data Excel (LogInfo ''Excel exported'') w"
  by (simp add: export_to_excel_def export_effect_def export_attempted_def export_content_def
        export_path_def export_error_def log_execution_def try_except_def bnd_def ret_def
        lift_def open_and_write_def log_msg_def raise_def Let_def json_dump_def
      split: sum.splits option.splits serialised.splits)

lemma export_one_effect: "export_one st data f w = export_effect st data f (export_ok f) w"
  by (cases f)
     (simp_all add: export_one_def export_ok_def save_json_effect export_to_csv_effect
        save_to_sqlite_effect export_to_excel_effect)

lemma export_path_inj: "export_path w f = export_path w g \<Longrightarrow> f = g"
  by (cases f; cases g) (auto simp: export_path_def path_join_def split: if_splits)

lemma export_effect_never_raises: "\<exists>p. fst (export_effect st data f ok w) = Inr p"
  by (simp add: export_effect_def split: sum.splits option.splits serialised.splits)

lemma same_exports_path: "same_exports w w1 \<Longrightarrow> export_path w1 f = export_path w f"
  by (simp add: same_exports_def export_path_def)

lemma same_exports_attempted:
  "same_exports w w1 \<Longrightarrow> export_attempted w1 data f = export_attempted w data f"
  by (simp add: same_exports_def export_attempted_def)

lemma same_exports_fails:
  assumes "same_exports w w1" "files w1 (export_path w f) = files w (export_path w f)"
  shows "export_fails st data w1 f = export_fails st data w f"
  using assms(2)
  by (simp add: export_fails_def same_exports_path[OF assms(1)] split: sum.splits)

lemma same_exports_expected:
  assumes "same_exports w w1" "files w1 (export_path w f) = files w (export_path w f)"
  shows "expected_file st data w1 f = expected_file st data w f"
  using assms(2)
  by (simp add: expected_file_def same_exports_path[OF assms(1)]
        same_exports_attempted[OF assms(1)] split: sum.splits)

lemma export_effect_frame:
  assumes "export_effect st data f ok w = (r, w')"
  shows "same_exports w w' \<and>
         (\<forall>p. p \<noteq> export_path w f \<longrightarrow> files w' p = files w p) \<and>
         set (logged w) \<subseteq> set (logged w')"
  using assms
  by (auto simp: export_effect_def same_exports_def
      split: if_splits sum.splits option.splits serialised.splits)

lemma export_effect_own:
  assumes "export_effect st data f ok w = (r, w')"
  shows "files w' (export_path w f) = expected_file st data w f \<and>
         (export_attempted w data f \<and> export_fails st data w f \<longrightarrow> export_error f \<in> set (logged w'))"
  using assms
  by (auto simp: export_effect_def export_fails_def expected_file_def
      split: if_splits sum.splits option.splits serialised.splits)

lemma export_one_expected:
  "files (snd (export_one st data f w)) (export_path w f) = expected_file st data w f"
proof -
  obtain r w' where e: "export_effect st data f (export_ok f) w = (r, w')"
    by (cases "export_effect st data f (export_ok f) w")
  from export_effect_own[OF e] show ?thesis
    by (simp add: export_one_effect e)
qed

lemma same_exports_refl: "same_exports w w"
  by (simp add: same_exports_def)

lemma stage_inv:
  assumes "export_effect st data g ok w1 = (r, w2)" "same_exports w w1"
  shows "same_exports w w2"
  using export_effect_frame[OF assms(1)] assms(2) by (simp add: same_exports_def)

lemma stage_other:
  assumes "export_effect st data g ok w1 = (r, w2)" "same_exports w w1" "f \<noteq> g"
  shows "files w2 (export_path w f) = files w1 (export_path w f)"
proof -
  from assms(3) have "export_path w1 f \<noteq> export_path w1 g" using export_path_inj by blast
  with export_effect_frame[OF assms(1)]
  have "files w2 (export_path w1 f) = files w1 (export_path w1 f)" by blast
  then show ?thesis by (simp add: same_exports_path[OF assms(2)])
qed

lemma stage_own:
  assumes "export_effect st data g ok w1 = (r, w2)" "same_exports w w1"
    and "files w1 (export_path w g) = files w (export_path w g)"
  shows "files w2 (export_path w g) = expected_file st data w g"
proof -
  from export_effect_own[OF assms(1)]
  have "files w2 (export_path w1 g) = expected_file st data w1 g" by blast
  then show ?thesis
    by (simp add: same_exports_path[OF assms(2)] same_exports_expected[OF assms(2,3)])
qed

lemma stage_log:
  assumes "export_effect st data g ok w1 = (r, w2)" "same_exports w w1"
    and "files w1 (export_path w g) = files w (export_path w g)"
    and "export_attempted w data g" "export_fails st data w g"
  shows "export_error g \<in> set (logged w2)"
proof -
  have "export_attempted w1 data g" "export_fails st data w1 g"
    using assms(4,5)
    by (simp_all add: same_exports_attempted[OF assms(2)] same_exports_fails[OF assms(2,3)])
  with export_effect_own[OF assms(1)] show ?thesis by blast
qed

lemma stage_mono:
  assumes "export_effect st data g ok w1 = (r, w2)"
  shows "set (logged w1) \<subseteq> set (logged w2)"
  using export_effect_frame[OF assms] by blast

lemma save_results_stages:
  "\<exists>r1 w1 r2 w2 r3 w3 r4 w4.
     export_effect st data Json (LogInfo ''JSON saved'') w = (r1, w1) \<and>
     export_effect st data Csv (LogInfo ''CSV exported'') w1 = (r2, w2) \<and>
     export_effect st data Sqlite (LogInfo ''SQLite saved'') w2 = (r3, w3) \<and>
     export_effect st data Excel (LogInfo ''Excel exported'') w3 = (r4, w4) \<and>
     save_results st data w = (Inr (), w4)"
proof -
  obtain r1 w1 where e1: "export_effect st data Json (LogInfo ''JSON saved'') w = (r1, w1)"
    by (cases "export_effect st data Json (LogInfo ''JSON saved'') w")
  obtain r2 w2 where e2: "export_effect st data Csv (LogInfo ''CSV exported'') w1 = (r2, w2)"
    by (cases "export_effect st data Csv (LogInfo ''CSV exported'') w1")
  obtain r3 w3 where e3: "export_effect st data Sqlite (LogInfo ''SQLite saved'') w2 = (r3, w3)"
    by (cases "export_effect st data Sqlite (LogInfo ''SQLite saved'') w2")
  obtain r4 w4 where e4: "export_effect st data Excel (LogInfo ''Excel exported'') w3 = (r4, w4)"
    by (cases "export_effect st data Excel (LogInfo ''Excel exported'') w3")
  from export_effect_never_raises[of st data Json "LogInfo ''JSON saved''" w] e1
  obtain p1 where p1: "r1 = Inr p1" by auto
  from export_effect_never_raises[of st data Csv "LogInfo ''CSV exported''" w1] e2
  obtain p2 where p2: "r2 = Inr p2" by auto
  from export_effect_never_raises[of st data Sqlite "LogInfo ''SQLite saved''" w2] e3
  obtain p3 where p3: "r3 = Inr p3" by auto
  from export_effect_never_raises[of st data Excel "LogInfo ''Excel exported''" w3] e4
  obtain p4 where p4: "r4 = Inr p4" by auto
  have j: "save_json st data w = (Inr p1, w1)" using e1 p1 by (simp add: save_json_effect)
  have c: "export_to_csv st data w1 = (Inr p2, w2)" using e2 p2 by (simp add: export_to_csv_effect)
  have s: "save_to_sqlite st data w2 = (Inr p3, w3)" using e3 p3 by (simp add: save_to_sqlite_effect)
  have x: "export_to_excel st data w3 = (Inr p4, w4)" using e4 p4 by (simp add: export_to_excel_effect)
  have "save_results st data w = (Inr (), w4)"
    by (simp add: save_results_def bnd_def ret_def j c s x)
  with e1 e2 e3 e4 show ?thesis by blast
qed

lemma save_results_files:
  "\<exists>w'. save_results st data w = (Inr (), w') \<and>
     (\<forall>f. files w' (export_path w f) = expected_file st data w f) \<and>
     (\<forall>f. export_attempted w data f \<and> export_fails st data w f \<longrightarrow>
           export_error f \<in> set (logged w'))"
proof -
  from save_results_stages[of st data w]
  obtain r1 w1 r2 w2 r3 w3 r4 w4 where
    e1: "export_effect st data Json (LogInfo ''JSON saved'') w = (r1, w1)" and
    e2: "export_effect st data Csv (LogInfo ''CSV exported'') w1 = (r2, w2)" and
    e3: "export_effect st data Sqlite (LogInfo ''SQLite saved'') w2 = (r3, w3)" and
    e4: "export_effect st data Excel (LogInfo ''Excel exported'') w3 = (r4, w4)" and
    sr: "save_results st data w = (Inr (), w4)"
    by (elim exE conjE)
  note i0 = same_exports_refl[of w]
  note i1 = stage_inv[OF e1 i0]
  note i2 = stage_inv[OF e2 i1]
  note i3 = stage_inv[OF e3 i2]
  have c1: "files w1 (export_path w Csv) = files w (export_path w Csv)"
    by (rule stage_other[OF e1 i0]) simp
  have s1: "files w1 (export_path w Sqlite) = files w (export_path w Sqlite)"
    by (rule stage_other[OF e1 i0]) simp
  have x1: "files w1 (export_path w Excel) = files w (export_path w Excel)"
    by (rule stage_other[OF e1 i0]) simp
  have "files w2 (export_path w Sqlite) = files w1 (export_path w Sqlite)"
    by (rule stage_other[OF e2 i1]) simp
  with s1 have s2: "files w2 (export_path w Sqlite) = files w (export_path w Sqlite)" by simp
  have "files w2 (export_path w Excel) = files w1 (export_path w Excel)"
    by (rule stage_other[OF e2 i1]) simp
  with x1 have x2: "files w2 (export_path w Excel) = files w (export_path w Excel)" by simp
  have "files w3 (export_path w Excel) = files w2 (export_path w Excel)"
    by (rule stage_other[OF e3 i2]) simp
  with x2 have x3: "files w3 (export_path w Excel) = files w (export_path w Excel)" by simp
  have files: "files w4 (export_path w f) = expected_file st data w f" for f
  proof (cases f)
    case Json
    have "files w1 (export_path w Json) = expected_file st data w Json"
      by (rule stage_own[OF e1 i0 refl])
    moreover have "files w2 (export_path w Json) = files w1 (export_path w Json)"
      by (rule stage_other[OF e2 i1]) simp
    moreover have "files w3 (export_path w Json) = files w2 (export_path w Json)"
      by (rule stage_other[OF e3 i2]) simp
    moreover have "files w4 (export_path w Json) = files w3 (export_path w Json)"
      by (rule stage_other[OF e4 i3]) simp
    ultimately show ?thesis using Json by simp
  next
    case Csv
    have "files w2 (export_path w Csv) = expected_file st data w Csv"
      by (rule stage_own[OF e2 i1 c1])
    moreover have "files w3 (export_path w Csv) = files w2 (export_path w Csv)"
      by (rule stage_other[OF e3 i2]) simp
    moreover have "files w4 (export_path w Csv) = files w3 (export_path w Csv)"
      by (rule stage_other[OF e4 i3]) simp
    ultimately show ?thesis using Csv by simp
  next
    case Sqlite
    have "files w3 (export_path w Sqlite) = expected_file st data w Sqlite"
      by (rule stage_own[OF e3 i2 s2])
    moreover have "files w4 (export_path w Sqlite) = files w3 (export_path w Sqlite)"
      by (rule stage_other[OF e4 i3]) simp
    ultimately show ?thesis using Sqlite by simp
  next
    case Excel
    have "files w4 (export_path w Excel) = expected_file st data w Excel"
      by (rule stage_own[OF e4 i3 x3])
    then show ?thesis using Excel by simp
  qed
  have logs: "export_error f \<in> set (logged w4)"
    if a: "export_attempted w data f" and b: "export_fails st data w f" for f
  proof (cases f)
    case Json
    have "export_error Json \<in> set (logged w1)" using stage_log[OF e1 i0 refl] a b Json by simp
    then show ?thesis using stage_mono[OF e2] stage_mono[OF e3] stage_mono[OF e4] Json by blast
  next
    case Csv
    have "export_error Csv \<in> set (logged w2)" using stage_log[OF e2 i1 c1] a b Csv by simp
    then show ?thesis using stage_mono[OF e3] stage_mono[OF e4] Csv by blast
  next
    case Sqlite
    have "export_error Sqlite \<in> set (logged w3)" using stage_log[OF e3 i2 s2] a b Sqlite by simp
    then show ?thesis using stage_mono[OF e4] Sqlite by blast
  next
    case Excel
    show ?thesis using stage_log[OF e4 i3 x3] a b Excel by simp
  qed
  show ?thesis
    using sr files logs by (intro exI[of _ w4]) simp
qed

text \<open>
  Claim C7, amended. The four exports are isolated from each other: the sequence of
  exports never raises; after it the file of each format is what the export of that
  format alone produces from the initial state, whatever happened to the other formats;
  and every attempted export that failed has logged its error. The file of a failed
  export is as it was before when the failure came before the file was opened, and holds
  the part written before the failure otherwise; the file of an export that did not fail
  holds all that its writer wrote.
\<close>

theorem exports_are_isolated:
  "\<exists>w'. save_results st data w = (Inr (), w') \<and>
     (\<forall>f. files w' (export_path w f) = files (snd (export_one st data f w)) (export_path w f)) \<and>
     (\<forall>f. files w' (export_path w f) = expected_file st data w f) \<and>
     (\<forall>f. export_attempted w data f \<and> export_fails st data w f \<longrightarrow>
           export_error f \<in> set (logged w'))"
  using save_results_files[of st data w] by (simp add: export_one_expected)

section \<open>The empty record list\<close>

text \<open>
  Claim C10. For the empty record list the CSV, the Excel and the SQLite export return
  the empty string and leave the state as it is, while \<^verbatim>\<open>save_json\<close>, given a session
  directory and a write that succeeds, writes the file with the content \<^verbatim>\<open>[]\<close>; after
  the four exports the files of the tabular formats are as they were before.
\<close>

theorem empty_run_exports:
  assumes "current_session_dir w \<noteq> []"
    and "write_error st (export_path w Json) = None"
  shows "export_to_csv st [] w = (Inr [], w) \<and>
         export_to_excel st [] w = (Inr [], w) \<and>
         save_to_sqlite st [] w = (Inr [], w) \<and>
         save_json st [] w =
           (Inr (export_path w Json),
            w\<lparr>files := (files w)(export_path w Json \<mapsto> ''[]''),
              logged := logged w @ [LogInfo ''JSON saved'']\<rparr>) \<and>
         (\<forall>f. f \<noteq> Json \<longrightarrow>
            files (snd (save_results st [] w)) (export_path w f) = files w (export_path w f)) \<and>
         files (snd (save_results st [] w)) (export_path w Json) = Some ''[]''"
proof -
  have csv: "export_to_csv st [] w = (Inr [], w)"
    by (simp add: export_to_csv_effect export_effect_def export_attempted_def)
  have xls: "export_to_excel st [] w = (Inr [], w)"
    by (simp add: export_to_excel_effect export_effect_def export_attempted_def)
  have sql: "save_to_sqlite st [] w = (Inr [], w)"
    by (simp add: save_to_sqlite_effect export_effect_def export_attempted_def)
  have js: "save_json st [] w =
           (Inr (export_path w Json),
            w\<lparr>files := (files w)(export_path w Json \<mapsto> ''[]''),
              logged := logged w @ [LogInfo ''JSON saved'']\<rparr>)"
    using assms
    by (simp add: save_json_effect export_effect_def export_attempted_def export_content_def
          json_dump_def)
  from save_results_files[of st "[]" w]
  obtain w' where sr: "save_results st [] w = (Inr (), w')"
    and fl: "\<forall>f. files w' (export_path w f) = expected_file st [] w f" by blast
  have others: "\<forall>f. f \<noteq> Json \<longrightarrow>
            files (snd (save_results st [] w)) (export_path w f) = files w (export_path w f)"
    using sr fl by (simp add: expected_file_def export_attempted_def)
  have "expected_file st [] w Json = Some ''[]''"
    using assms
    by (simp add: expected_file_def export_attempted_def export_content_def json_dump_def)
  then have "files (snd (save_results st [] w)) (export_path w Json) = Some ''[]''"
    using sr fl by simp
  with csv xls sql js others show ?thesis by blast
qed

section \<open>The run and the browser\<close>

lemma driver_quit_closes:
  assumes "driver_quit st w = (r, w')"
  shows "driver w' = driver w \<and> (driver w' = None \<or> quit_called w') \<and>
         (\<forall>e. r = Inl e \<longrightarrow> (\<exists>b. driver w' = Some b \<and> quit_error st b = Some e)) \<and>
         (\<forall>b. driver w = Some b \<and> quit_error st b = None \<longrightarrow> r = Inr ()) \<and>
         (driver w = None \<longrightarrow> r = Inr ())"
  using assms by (auto simp: driver_quit_def split: option.splits)

lemma run_exit_closes:
  assumes "run_exit st failure w = (r, w')"
  shows "driver w' = driver w \<and> (driver w' = None \<or> quit_called w') \<and>
         (\<forall>e. r = Inl e \<longrightarrow> (\<exists>b. driver w' = Some b \<and> quit_error st b = Some e)) \<and>
         (\<forall>b. driver w = Some b \<and> quit_error st b = None \<longrightarrow> r = Inr ()) \<and>
         (driver w = None \<longrightarrow> r = Inr ())"
proof -
  let ?w0 = "case failure of Some e \<Rightarrow> w\<lparr>logged := logged w @ [LogCritical ''Critical failure'']\<rparr>
                         | None \<Rightarrow> w"
  have d0: "driver ?w0 = driver w" by (cases failure) simp_all
  obtain r1 w1 where q: "driver_quit st ?w0 = (r1, w1)" by (cases "driver_quit st ?w0")
  have body: "bnd (case failure of Some e \<Rightarrow> log_msg (LogCritical ''Critical failure'')
                                  | None \<Rightarrow> ret ()) (\<lambda>_. driver_quit st) w = (r1, w1)"
    using q by (cases failure) (simp_all add: bnd_def log_msg_def ret_def)
  have res: "r = r1 \<and> driver w' = driver w1 \<and> quit_called w' = quit_called w1"
    using assms body
    by (cases r1) (auto simp: run_exit_def log_execution_def try_except_def bnd_def log_msg_def raise_def)
  from driver_quit_closes[OF q] d0 res show ?thesis by auto
qed

text \<open>
  Claim C8, amended. Whenever \<^verbatim>\<open>run\<close> returns or raises, on whatever path, the driver,
  if there is one, has had \<^verbatim>\<open>quit\<close> called on it; no exception of the body of
  \<^verbatim>\<open>run\<close> leaves it, the only exception that can is one raised by \<^verbatim>\<open>quit\<close> itself.
  \<^verbatim>\<open>run\<close> returns or raises whenever the search fails or the discovery loop returns:
  it fails to do so only when the search succeeded and the discovery loop does not
  return.
\<close>

theorem run_closes_browser:
  "(case run st cfg fuel query w of
      None \<Rightarrow> \<exists>w1. run_search st cfg query w = (Inr (), w1) \<and>
                   scroll_and_collect_results st cfg fuel w1 = None
    | Some (r, w') \<Rightarrow>
        (driver w' = None \<or> quit_called w') \<and>
        (\<forall>e. r = Inl e \<longrightarrow> (\<exists>b. driver w' = Some b \<and> quit_error st b = Some e)))"
proof (cases "run st cfg fuel query w")
  case None
  then show ?thesis
    by (auto simp: run_def split: prod.splits sum.splits option.splits)
next
  case (Some res)
  obtain r w' where res: "res = (r, w')" by (cases res)
  from Some res obtain failure w0 where "run_exit st failure w0 = (r, w')"
    by (auto simp: run_def split: prod.splits sum.splits option.splits)
  from run_exit_closes[OF this] Some res show ?thesis by auto
qed

section \<open>Evaluation on the concrete pages\<close>

lemma char_of_nat_eval:
  "char_of (n::nat) = Char (odd n) (odd (n div 2)) (odd (n div 4)) (odd (n div 8))
     (odd (n div 16)) (odd (n div 32)) (odd (n div 64)) (odd (n div 128))"
  by (simp add: char_of_def bit_iff_odd)

lemmas monad_defs =
  ret_def raise_def lift_def bnd_def try_except_def try_except_only_def log_msg_def
  with_driver_def change_driver_def find_elements_def first_match_def find_element_def
  get_current_url_def driver_get_def execute_script_def wait_until_visible_def
  wait_until_present_def write_file_def open_and_write_def makedirs_def log_execution_def
  handle_errors_def

lemmas string_defs =
  strip_def is_space_def is_digit_def lower_def lower_char_def upper_def upper_char_def
  is_alnum_def rstrip_colon_def path_join_def digit_char_def pad3_def char_of_nat_eval
  slice_to_def

lemmas example_defs =
  ex_site_def ex_cfg_def ex_world_def ex_browser_def text_element_def rated_review_def
  unrated_review_def reviews_browser_def image_element_def gallery_browser_def
  one_image_def icon_image_def empty_record_def reviews_record_def photos_record_def
  photos_world_def stale_title_def stale_browser_def link_element_def snippet_def
  results_browser_def failing_script_site_def failing_exports_site_def timeout_site_def
  fresh_world_def quit_failing_site_def plain_snippet_def one_snippet_browser_def
  two_snippets_browser_def alternating_site_def

lemmas details_defs =
  extract_details_def extract_details_body_def details_loaded_def extract_fields_def
  switch_to_overview_def overview_tabs_xpath_def extract_name_def get_text_try_def
  get_attribute_try_def category_from_links_def extract_category_def extract_description_def
  create_place_folder_def safe_chars_def scrape_listing_photos_def open_gallery_def
  gallery_url_def back_to_overview_def extract_features_def extract_address_def
  extract_website_def extract_phone_def extract_working_hours_def get_all_attributes_def
  extract_social_links_def extract_rating_def extract_reviews_count_def rating_of_text_def
  reviews_count_of_text_def scrape_listing_reviews_def

lemmas reviews_defs =
  extract_reviews_def reviews_tabs_xpath_def review_rating_def parse_review_def
  get_text_from_element_def

lemmas photos_defs =
  extract_photos_def transfer_cookies_def gallery_images_selector_def photo_step_def
  resolve_src_def skip_non_image_def upgrade_src_def download_photo_def session_get_def
  needs_conversion_def photo_path_def

lemmas run_defs =
  run_def run_search_def run_places_def run_exit_def driver_quit_def setup_driver_def
  setup_session_directory_def base_dir_def perform_search_def report_progress_def
  normalize_link_def scroll_and_collect_results_def scroll_trace_def link_selectors_def
  add_link_def save_results_def save_json_def export_to_csv_def export_to_excel_def
  save_to_sqlite_def json_dump_def

subsection \<open>Reviews\<close>

lemma reviews_record_eval:
  "extract_details ex_site (ex_cfg\<lparr>scrape_photos := False\<rparr>) 1 ''cafe'' (ex_world reviews_browser) =
   (Inr (Some reviews_record), ex_world reviews_browser)"
  by (simp add: monad_defs string_defs example_defs details_defs reviews_defs)

theorem reviews_capped_and_valid_witness:
  "extract_details ex_site (ex_cfg\<lparr>scrape_photos := False\<rparr>) 1 ''cafe'' (ex_world reviews_browser) =
     (Inr (Some reviews_record), ex_world reviews_browser) \<and>
   p_reviews reviews_record = [\<lparr>r_author = ''Ann'', r_text = [], r_rating = ''5'', r_date = []\<rparr>] \<and>
   length (p_reviews reviews_record) \<le> 5 \<and>
   never_raises (extract_reviews ex_site)"
  using reviews_capped_and_valid[OF reviews_record_eval] reviews_record_eval
  by (simp add: reviews_record_def)

subsection \<open>Photos\<close>

lemma photos_record_eval:
  "extract_details ex_site (ex_cfg\<lparr>scrape_reviews := False\<rparr>) 1 ''cafe''
     (ex_world (gallery_browser [one_image])) =
   (Inr (Some (photos_record ''jpg'')), photos_world ''jpg'' (replicate 1001 CHR ''x''))"
  by (simp add: monad_defs string_defs example_defs details_defs photos_defs)

theorem photos_capped_and_accepted_witness:
  "0 \<le> max_photos (ex_cfg\<lparr>scrape_reviews := False\<rparr>) \<and>
   extract_details ex_site (ex_cfg\<lparr>scrape_reviews := False\<rparr>) 1 ''cafe''
     (ex_world (gallery_browser [one_image])) =
     (Inr (Some (photos_record ''jpg'')), photos_world ''jpg'' (replicate 1001 CHR ''x'')) \<and>
   p_photos (photos_record ''jpg'') = [''out/run/001_Place_1/photos/photo_1.jpg''] \<and>
   int (length (p_photos (photos_record ''jpg''))) \<le> max_photos (ex_cfg\<lparr>scrape_reviews := False\<rparr>) \<and>
   holds_accepted ex_site (ex_cfg\<lparr>scrape_reviews := False\<rparr>)
     (photos_world ''jpg'' (replicate 1001 CHR ''x'')) ''out/run/001_Place_1/photos/photo_1.jpg'' \<and>
   files (photos_world ''jpg'' (replicate 1001 CHR ''x'')) ''out/run/001_Place_1/photos/photo_1.jpg''
     = Some (replicate 1001 CHR ''x'')"
proof -
  have m: "0 \<le> max_photos (ex_cfg\<lparr>scrape_reviews := False\<rparr>)" by (simp add: ex_cfg_def)
  have p: "p_photos (photos_record ''jpg'') = [''out/run/001_Place_1/photos/photo_1.jpg'']"
    by (simp add: photos_record_def)
  from photos_capped_and_accepted[OF m photos_record_eval] p
  show ?thesis using m photos_record_eval by (simp add: photos_world_def)
qed

lemma webp_record_eval:
  "extract_details ex_site (ex_cfg\<lparr>photo_format := ''webp'', scrape_reviews := False\<rparr>) 1 ''cafe''
     (ex_world (gallery_browser [one_image])) =
   (Inr (Some (photos_record ''webp'')), photos_world ''webp'' ''x'')"
  by (simp add: monad_defs string_defs example_defs details_defs photos_defs)

theorem reencoded_photo_counterexample:
  "extract_details ex_site (ex_cfg\<lparr>photo_format := ''webp'', scrape_reviews := False\<rparr>) 1 ''cafe''
     (ex_world (gallery_browser [one_image])) =
     (Inr (Some (photos_record ''webp'')), photos_world ''webp'' ''x'') \<and>
   p_photos (photos_record ''webp'') = [''out/run/001_Place_1/photos/photo_1.webp''] \<and>
   files (photos_world ''webp'' ''x'') ''out/run/001_Place_1/photos/photo_1.webp'' = Some ''x'' \<and>
   length ''x'' \<le> 1000"
  using webp_record_eval by (simp add: photos_record_def photos_world_def)




subsection \<open>A stale title\<close>

lemma get_text_no_match:
  assumes "driver w = Some b" and "\<forall>s \<in> set selectors. dom b s = Inr []"
  shows "get_text selectors w = (Inr [], w)"
  using assms(2)
proof (induction selectors)
  case Nil
  show ?case by (simp add: ret_def)
next
  case (Cons s selectors)
  then have "get_text_try s w = (Inl NoSuchElementException, w)"
    using assms(1)
    by (simp add: get_text_try_def bnd_def find_element_def with_driver_def first_match_def)
  with Cons show ?case by simp
qed

lemma get_attribute_no_match:
  assumes "driver w = Some b" and "\<forall>s \<in> set selectors. dom b s = Inr []"
  shows "get_attribute selectors a w = (Inr [], w)"
  using assms(2)
proof (induction selectors)
  case Nil
  show ?case by (simp add: ret_def)
next
  case (Cons s selectors)
  then have "get_attribute_try s a w = (Inl NoSuchElementException, w)"
    using assms(1)
    by (simp add: get_attribute_try_def bnd_def find_element_def with_driver_def first_match_def)
  with Cons show ?case by simp
qed

text \<open>
  Claim C1 fails on the code. On a page whose title element raises
  \<^verbatim>\<open>StaleElementReferenceException\<close> when its text is read, \<^verbatim>\<open>_get_text\<close> raises that
  exception, \<^verbatim>\<open>_extract_details\<close> returns \<^verbatim>\<open>None\<close>, and the listing is not in the
  result of the run.
\<close>

theorem stale_title_drops_listing:
  "get_text [''.orgpage-header-view__title'', ''.card-title-view__title'', ''h1'',
             ''.business-card-title-view__title''] (ex_world stale_browser)
     = (Inl StaleElementReferenceException, ex_world stale_browser) \<and>
   extract_details ex_site ex_cfg 1 ''cafe'' (ex_world stale_browser)
     = (Inr None, ex_world stale_browser) \<and>
   fst (process_places ex_site ex_cfg ''cafe'' 1 [''https://yandex.ru/maps/org/cafe/1/''] 0 []
          (ex_world stale_browser)) = Inr []"
  by (simp add: monad_defs string_defs example_defs details_defs run_defs)

subsection \<open>Size markers\<close>

lemma replace_absent:
  "old \<noteq> [] \<Longrightarrow> \<not> str_contains old s \<Longrightarrow> replace old new s = s"
  by (induction s) auto

lemma upgrade_src_unmarked:
  assumes "\<not> str_contains ''S_height'' src" "\<not> str_contains ''M_height'' src"
    "\<not> str_contains ''L_height'' src" "\<not> str_contains ''200x200'' src"
    "\<not> str_contains ''400x400'' src" "\<not> str_contains ''600x600'' src"
    "\<not> str_contains ''priority-headline-background'' src"
  shows "upgrade_src src = src"
proof -
  have xxs: "replace ''XXS_height'' ''XL'' src = src"
  proof (rule replace_absent)
    show "\<not> str_contains ''XXS_height'' src"
      using assms(1) by (induction src) (auto simp: prefix_def)
  qed simp
  have xs: "replace ''XS_height'' ''XL'' src = src"
  proof (rule replace_absent)
    show "\<not> str_contains ''XS_height'' src"
      using assms(1) by (induction src) (auto simp: prefix_def)
  qed simp
  show ?thesis
    using assms by (simp add: upgrade_src_def replace_absent xxs xs)
qed

text \<open>
  Claim C6 fails on the code. A URL with the marker \<^verbatim>\<open>XXS\<close> alone passes the test of
  the markers and is left as it is; \<^verbatim>\<open>XXS_height\<close> and \<^verbatim>\<open>XS_height\<close> become
  \<^verbatim>\<open>XXXL\<close> and \<^verbatim>\<open>XXL\<close>, since \<^verbatim>\<open>S_height\<close> is replaced first; \<^verbatim>\<open>S_height\<close>
  becomes \<^verbatim>\<open>XL\<close> and \<^verbatim>\<open>200x200\<close> becomes \<^verbatim>\<open>orig\<close>.
\<close>

theorem size_marker_rewriting:
  "upgrade_src ''https://a.example/get/1/XXS'' = ''https://a.example/get/1/XXS'' \<and>
   upgrade_src ''https://a.example/get/1/XXS_height'' = ''https://a.example/get/1/XXXL'' \<and>
   upgrade_src ''https://a.example/get/1/XS_height'' = ''https://a.example/get/1/XXL'' \<and>
   upgrade_src ''https://a.example/get/1/S_height'' = ''https://a.example/get/1/XL'' \<and>
   upgrade_src ''https://a.example/get/1/200x200'' = ''https://a.example/get/1/orig''"
  by (simp add: upgrade_src_def)

subsection \<open>Discovery\<close>

theorem failed_scroll_counterexample:
  "scroll_trace failing_script_site ex_cfg (Suc 0) (ex_world results_browser) =
     Some (Inr ([''https://yandex.ru/maps/org/cafe/1/''], ScrollFailed, [1]), ex_world results_browser) \<and>
   scroll_and_collect_results failing_script_site ex_cfg (Suc 0) (ex_world results_browser) =
     Some (Inr [''https://yandex.ru/maps/org/cafe/1/''], ex_world results_browser) \<and>
   int (length [''https://yandex.ru/maps/org/cafe/1/'']) < max_results ex_cfg \<and>
   \<not> five_stalls [1]"
  by (simp add: monad_defs string_defs example_defs run_defs five_stalls_def)

lemma stalled_eval:
  "scroll_trace ex_site ex_cfg (Suc (Suc (Suc (Suc (Suc (Suc 0)))))) (ex_world results_browser) =
     Some (Inr ([''https://yandex.ru/maps/org/cafe/1/''], Stalled, [1, 1, 1, 1, 1, 1]),
           ex_world results_browser)"
  by (simp add: monad_defs string_defs example_defs run_defs)

theorem discovery_bound_and_stall_witness:
  "0 < max_results ex_cfg \<and>
   scroll_trace ex_site ex_cfg (Suc (Suc (Suc (Suc (Suc (Suc 0)))))) (ex_world results_browser) =
     Some (Inr ([''https://yandex.ru/maps/org/cafe/1/''], Stalled, [1, 1, 1, 1, 1, 1]),
           ex_world results_browser) \<and>
   scroll_and_collect_results ex_site ex_cfg (Suc (Suc (Suc (Suc (Suc (Suc 0))))))
       (ex_world results_browser) =
     Some (Inr [''https://yandex.ru/maps/org/cafe/1/''], ex_world results_browser) \<and>
   int (length [''https://yandex.ru/maps/org/cafe/1/'']) < max_results ex_cfg \<and>
   five_stalls [1, 1, 1, 1, 1, 1]"
proof -
  have m: "0 < max_results ex_cfg" by (simp add: ex_cfg_def)
  have lt: "int (length [''https://yandex.ru/maps/org/cafe/1/'']) < max_results ex_cfg"
    by (simp add: ex_cfg_def)
  from discovery_bound_and_stall[OF m stalled_eval] lt
  have "scroll_and_collect_results ex_site ex_cfg (Suc (Suc (Suc (Suc (Suc (Suc 0))))))
       (ex_world results_browser) =
     Some (Inr [''https://yandex.ru/maps/org/cafe/1/''], ex_world results_browser)"
    and "five_stalls [1, 1, 1, 1, 1, 1]" by auto
  with m lt stalled_eval show ?thesis by blast
qed

subsection \<open>Exports\<close>

lemma export_paths_eval:
  "export_path (ex_world ex_browser) Json = ''out/run/places_data.json''"
  "export_path (ex_world ex_browser) Csv = ''out/run/places_data.csv''"
  "export_path (ex_world ex_browser) Sqlite = ''out/run/places_data.db''"
  "export_path (ex_world ex_browser) Excel = ''out/run/places_data.xlsx''"
  by (simp_all add: export_path_def ex_world_def path_join_def)

theorem exports_are_isolated_witness:
  "\<exists>w'. save_results failing_exports_site [empty_record] (ex_world ex_browser) = (Inr (), w') \<and>
     export_fails failing_exports_site [empty_record] (ex_world ex_browser) Csv \<and>
     export_fails failing_exports_site [empty_record] (ex_world ex_browser) Excel \<and>
     export_error Csv \<in> set (logged w') \<and>
     export_error Excel \<in> set (logged w') \<and>
     files w' ''out/run/places_data.csv'' = None \<and>
     files w' ''out/run/places_data.json'' = Some ''[{}]'' \<and>
     files w' ''out/run/places_data.db'' = Some ''SQLite'' \<and>
     files w' ''out/run/places_data.xlsx'' = Some ''P''"
proof -
  let ?w = "ex_world ex_browser"
  from exports_are_isolated[of failing_exports_site "[empty_record]" ?w]
  obtain w' where sr: "save_results failing_exports_site [empty_record] ?w = (Inr (), w')"
    and fl: "\<forall>f. files w' (export_path ?w f) = expected_file failing_exports_site [empty_record] ?w f"
    and lg: "\<forall>f. export_attempted ?w [empty_record] f \<and>
                  export_fails failing_exports_site [empty_record] ?w f \<longrightarrow>
                  export_error f \<in> set (logged w')"
    by blast
  have a: "export_attempted ?w [empty_record] f" for f
    by (simp add: export_attempted_def ex_world_def)
  have fc: "export_fails failing_exports_site [empty_record] ?w Csv"
    by (simp add: export_fails_def export_content_def failing_exports_site_def ex_site_def)
  have fx: "export_fails failing_exports_site [empty_record] ?w Excel"
    by (simp add: export_fails_def export_content_def failing_exports_site_def ex_site_def)
  have ec: "export_error Csv \<in> set (logged w')" using lg a fc by blast
  have ex: "export_error Excel \<in> set (logged w')" using lg a fx by blast
  have c: "files w' ''out/run/places_data.csv'' = None"
    using fl[rule_format, of Csv, unfolded export_paths_eval]
    by (simp add: expected_file_def export_content_def failing_exports_site_def ex_site_def
          ex_world_def)
  have j: "files w' ''out/run/places_data.json'' = Some ''[{}]''"
    using fl[rule_format, of Json, unfolded export_paths_eval]
    by (simp add: expected_file_def export_attempted_def
          export_content_def json_dump_def failing_exports_site_def ex_site_def ex_world_def)
  have d: "files w' ''out/run/places_data.db'' = Some ''SQLite''"
    using fl[rule_format, of Sqlite, unfolded export_paths_eval]
    by (simp add: expected_file_def export_attempted_def
          export_content_def failing_exports_site_def ex_site_def ex_world_def)
  have x: "files w' ''out/run/places_data.xlsx'' = Some ''P''"
    using fl[rule_format, of Excel, unfolded export_paths_eval]
    by (simp add: expected_file_def export_attempted_def
          export_content_def failing_exports_site_def ex_site_def ex_world_def)
  from sr fc fx ec ex c j d x show ?thesis by blast
qed

text \<open>
  The claim as first stated fails where it says that the artifact of a failed export is
  missing: the workbook writer is interrupted, the export fails and logs its error, and
  the file is there, with the part written.
\<close>

theorem partial_workbook_counterexample:
  "fst (save_results failing_exports_site [empty_record] (ex_world ex_browser)) = Inr () \<and>
   fst (export_to_excel failing_exports_site [empty_record] (ex_world ex_browser)) = Inr [] \<and>
   LogError ''Failed to export Excel''
     \<in> set (logged (snd (save_results failing_exports_site [empty_record] (ex_world ex_browser)))) \<and>
   files (snd (save_results failing_exports_site [empty_record] (ex_world ex_browser)))
     ''out/run/places_data.xlsx'' = Some ''P''"
  by (simp add: monad_defs string_defs example_defs run_defs Let_def)

theorem empty_run_exports_witness:
  "current_session_dir (ex_world ex_browser) \<noteq> [] \<and>
   write_error ex_site (export_path (ex_world ex_browser) Json) = None \<and>
   export_to_csv ex_site [] (ex_world ex_browser) = (Inr [], ex_world ex_browser) \<and>
   export_to_excel ex_site [] (ex_world ex_browser) = (Inr [], ex_world ex_browser) \<and>
   save_to_sqlite ex_site [] (ex_world ex_browser) = (Inr [], ex_world ex_browser) \<and>
   fst (save_json ex_site [] (ex_world ex_browser)) = Inr ''out/run/places_data.json'' \<and>
   files (snd (save_results ex_site [] (ex_world ex_browser))) ''out/run/places_data.json'' = Some ''[]'' \<and>
   files (snd (save_results ex_site [] (ex_world ex_browser))) ''out/run/places_data.csv'' = None \<and>
   files (snd (save_results ex_site [] (ex_world ex_browser))) ''out/run/places_data.db'' = None \<and>
   files (snd (save_results ex_site [] (ex_world ex_browser))) ''out/run/places_data.xlsx'' = None"
proof -
  let ?w = "ex_world ex_browser"
  have h1: "current_session_dir ?w \<noteq> []" by (simp add: ex_world_def)
  have h2: "write_error ex_site (export_path ?w Json) = None" by (simp add: ex_site_def)
  note t = empty_run_exports[OF h1 h2]
  have others: "\<forall>f. f \<noteq> Json \<longrightarrow>
      files (snd (save_results ex_site [] ?w)) (export_path ?w f) = files ?w (export_path ?w f)"
    using t by blast
  have c: "files (snd (save_results ex_site [] ?w)) ''out/run/places_data.csv'' = None"
    using others[rule_format, of Csv] by (simp add: export_paths_eval) (simp add: ex_world_def)
  have d: "files (snd (save_results ex_site [] ?w)) ''out/run/places_data.db'' = None"
    using others[rule_format, of Sqlite] by (simp add: export_paths_eval) (simp add: ex_world_def)
  have x: "files (snd (save_results ex_site [] ?w)) ''out/run/places_data.xlsx'' = None"
    using others[rule_format, of Excel] by (simp add: export_paths_eval) (simp add: ex_world_def)
  have j: "files (snd (save_results ex_site [] ?w)) ''out/run/places_data.json'' = Some ''[]''"
    using t by (simp add: export_paths_eval)
  have sj: "fst (save_json ex_site [] ?w) = Inr ''out/run/places_data.json''"
    using t by (simp add: export_paths_eval)
  from h1 h2 t c d x j sj show ?thesis by blast
qed

subsection \<open>Runs\<close>

lemma timeout_run_eval:
  "\<exists>w'. run timeout_site ex_cfg 0 ''cafe'' fresh_world = Some (Inr (), w') \<and>
     driver w' = Some ex_browser \<and>
     logged w' = [LogError ''Search box not found or results did not load.'',
                  LogCritical ''Critical failure'']"
  by (simp add: monad_defs string_defs example_defs run_defs safe_chars_def Let_def)

lemma empty_run_eval:
  "\<exists>w'. run ex_site ex_cfg (Suc (Suc (Suc (Suc (Suc 0))))) ''cafe'' fresh_world = Some (Inr (), w') \<and>
     driver w' = Some ex_browser \<and>
     files w' ''output_data/20260101_120000_cafe/places_data.json'' = Some ''[]'' \<and>
     files w' ''output_data/20260101_120000_cafe/places_data.csv'' = None"
  by (simp add: monad_defs string_defs example_defs run_defs safe_chars_def Let_def)

theorem run_closes_browser_witness:
  "(\<exists>w'. run timeout_site ex_cfg 0 ''cafe'' fresh_world = Some (Inr (), w') \<and>
      driver w' = Some ex_browser \<and> quit_called w') \<and>
   (\<exists>w'. run ex_site ex_cfg (Suc (Suc (Suc (Suc (Suc 0))))) ''cafe'' fresh_world = Some (Inr (), w') \<and>
      driver w' = Some ex_browser \<and> quit_called w')"
proof -
  from timeout_run_eval obtain w1 where
    r1: "run timeout_site ex_cfg 0 ''cafe'' fresh_world = Some (Inr (), w1)"
    and d1: "driver w1 = Some ex_browser" by blast
  from run_closes_browser[where st=timeout_site and cfg=ex_cfg and fuel=0 and query="''cafe''"
      and w=fresh_world] r1 d1
  have q1: "quit_called w1" by simp
  from empty_run_eval obtain w2 where
    r2: "run ex_site ex_cfg (Suc (Suc (Suc (Suc (Suc 0))))) ''cafe'' fresh_world = Some (Inr (), w2)"
    and d2: "driver w2 = Some ex_browser" by blast
  from run_closes_browser[where st=ex_site and cfg=ex_cfg
      and fuel="Suc (Suc (Suc (Suc (Suc 0))))" and query="''cafe''" and w=fresh_world] r2 d2
  have q2: "quit_called w2" by simp
  from r1 d1 q1 r2 d2 q2 show ?thesis by blast
qed

text \<open>
  The claim as first stated fails where it says that the run always ends cleanly: on a
  site on which \<^verbatim>\<open>quit\<close> raises, a run that completes leaves \<^verbatim>\<open>run\<close> by that
  exception.
\<close>

theorem quit_failure_counterexample:
  "map_option fst (run quit_failing_site ex_cfg (Suc (Suc (Suc (Suc (Suc 0))))) ''cafe'' fresh_world)
     = Some (Inl WebDriverException)"
  by (simp add: monad_defs string_defs example_defs run_defs safe_chars_def Let_def)

text \<open>
  On the page that shows one and two snippets in turn the count changes at every
  iteration, the stall counter is reset every time, and the discovery loop, and with it
  \<^verbatim>\<open>run\<close>, does not return, whatever the fuel.
\<close>

lemma plain_snippet_no_link: "snippet_href plain_snippet link_selectors = None"
  by (simp add: plain_snippet_def link_selectors_def first_match_def)

lemma alternating_page_loops:
  assumes "0 < max_results cfg"
  shows "(driver w = Some one_snippet_browser \<longrightarrow> last_count \<noteq> 1 \<longrightarrow>
            scroll_loop alternating_site cfg fuel last_count attempts [] seen w = None) \<and>
         (driver w = Some two_snippets_browser \<longrightarrow> last_count \<noteq> 2 \<longrightarrow>
            scroll_loop alternating_site cfg fuel last_count attempts [] seen w = None)"
proof (induction fuel arbitrary: w last_count attempts seen)
  case 0
  show ?case by simp
next
  case (Suc fuel)
  have one: "scroll_loop alternating_site cfg (Suc fuel) last_count attempts [] seen w = None"
    if d: "driver w = Some one_snippet_browser" and l: "last_count \<noteq> 1"
  proof -
    have f: "find_elements ''.search-snippet-view'' w = (Inr [plain_snippet], w)"
      using d by (simp add: find_elements_def with_driver_def one_snippet_browser_def)
    have s: "execute_script alternating_site ''arguments[0].scrollIntoView(true);''
               (Some plain_snippet) w = (Inr (), w\<lparr>driver := Some two_snippets_browser\<rparr>)"
      using d
      by (simp add: execute_script_def change_driver_def alternating_site_def ex_site_def
            one_snippet_browser_def)
    have "scroll_loop alternating_site cfg fuel 1 0 [] (seen @ [1])
            (w\<lparr>driver := Some two_snippets_browser\<rparr>) = None"
      using Suc.IH[of "w\<lparr>driver := Some two_snippets_browser\<rparr>" 1 0 "seen @ [1]"] by simp
    then show ?thesis
      using assms l by (simp add: f s plain_snippet_no_link)
  qed
  have two: "scroll_loop alternating_site cfg (Suc fuel) last_count attempts [] seen w = None"
    if d: "driver w = Some two_snippets_browser" and l: "last_count \<noteq> 2"
  proof -
    have f: "find_elements ''.search-snippet-view'' w = (Inr [plain_snippet, plain_snippet], w)"
      using d by (simp add: find_elements_def with_driver_def two_snippets_browser_def)
    have s: "execute_script alternating_site ''arguments[0].scrollIntoView(true);''
               (Some plain_snippet) w = (Inr (), w\<lparr>driver := Some one_snippet_browser\<rparr>)"
      using d
      by (simp add: execute_script_def change_driver_def alternating_site_def ex_site_def
            two_snippets_browser_def)
    have "scroll_loop alternating_site cfg fuel 2 0 [] (seen @ [2])
            (w\<lparr>driver := Some one_snippet_browser\<rparr>) = None"
      using Suc.IH[of "w\<lparr>driver := Some one_snippet_browser\<rparr>" 2 0 "seen @ [2]"] by simp
    then show ?thesis
      using assms l by (simp add: f s plain_snippet_no_link numeral_2_eq_2)
  qed
  from one two show ?case by blast
qed

lemma alternating_search_eval:
  "\<exists>w1. run_search alternating_site ex_cfg ''cafe'' fresh_world = (Inr (), w1) \<and>
     driver w1 = Some one_snippet_browser"
  by (simp add: monad_defs string_defs example_defs run_defs safe_chars_def Let_def)

lemma alternating_page_never_returns:
  "run alternating_site ex_cfg fuel ''cafe'' fresh_world = None"
proof -
  from alternating_search_eval obtain w1 where
    s: "run_search alternating_site ex_cfg ''cafe'' fresh_world = (Inr (), w1)"
    and d: "driver w1 = Some one_snippet_browser" by blast
  have "0 < max_results ex_cfg" by (simp add: ex_cfg_def)
  from alternating_page_loops[OF this, of w1 0 fuel 0 "[]"] d
  have "scroll_and_collect_results alternating_site ex_cfg fuel w1 = None"
    by (simp add: scroll_and_collect_results_def scroll_trace_def)
  with s show ?thesis by (simp add: run_def)
qed

end
